theory Spec2Isabelle
  imports Main
begin

section \<open>Python values, truthiness and exceptions\<close>

text \<open>
  The adapters of \<^verbatim>\<open>storage_client\<close> are Python classes. An \<^verbatim>\<open>Optional[str]\<close> is a
  \<open>string option\<close> (\<open>None\<close> is Python's \<^verbatim>\<open>None\<close>), \<^verbatim>\<open>os.environ\<close> is a map from
  variable names to strings, and a raised exception is the \<open>Inl\<close> of a sum.
\<close>

datatype os_error = FileExistsError | FileNotFoundError | NotADirectoryError

datatype exn =
    ValueError string
      \<comment> \<open>raised by the two constructors; carries the message\<close>
  | ClientError string
      \<comment> \<open>\<^verbatim>\<open>botocore.exceptions.ClientError\<close>; carries \<^verbatim>\<open>str(e)\<close>\<close>
  | OSError os_error
      \<comment> \<open>the subclasses of \<^verbatim>\<open>OSError\<close> that the directory creation can raise\<close>
  | OtherError string string
      \<comment> \<open>an exception of any class that is not \<^verbatim>\<open>ClientError\<close> (class name, \<^verbatim>\<open>str(e)\<close>)\<close>
  | PyException string
      \<comment> \<open>a plain \<^verbatim>\<open>Exception(msg)\<close>, as the adapter raises it\<close>

type_synonym environ = "string \<rightharpoonup> string"

definition truthy :: "string option \<Rightarrow> bool" where
  \<comment> \<open>Python's truth value of an \<^verbatim>\<open>Optional[str]\<close>: \<^verbatim>\<open>None\<close> and \<^verbatim>\<open>''\<close> are false.\<close>
  "truthy v = (case v of None \<Rightarrow> False | Some s \<Rightarrow> s \<noteq> [])"

definition py_or :: "string option \<Rightarrow> string option \<Rightarrow> string option" where
  \<comment> \<open>\<^verbatim>\<open>a or b\<close>: the left operand when it is true, the right operand otherwise.\<close>
  "py_or a b = (if truthy a then a else b)"

fun join :: "string \<Rightarrow> string list \<Rightarrow> string" where
  \<comment> \<open>\<^verbatim>\<open>sep.join(xs)\<close>\<close>
  "join sep [] = []"
| "join sep [x] = x"
| "join sep (x # y # ys) = x @ sep @ join sep (y # ys)"

section \<open>Instances and the singleton slot of each class\<close>

text \<open>
  The handle that \<^verbatim>\<open>boto3.client('s3', ...)\<close> returns is modelled by the keyword arguments it
  was built from.
\<close>

record client =
  aws_access_key_id :: "string option"
  aws_secret_access_key :: "string option"
  endpoint_url :: "string option"
  region_name :: string

text \<open>
  The attributes of an adapter object. \<open>access_key\<close>, \<open>secret_key\<close> and \<open>account_id\<close>
  hold \<^verbatim>\<open>None\<close> or a string; \<open>account_id\<close> is only ever assigned by \<^verbatim>\<open>R2Storage\<close>.
  \<open>client = None\<close> stands for an object on which \<^verbatim>\<open>S3BaseStorage.__init__\<close> has not
  run yet, so that the attribute does not exist.
\<close>

record storage =
  access_key :: "string option"
  secret_key :: "string option"
  account_id :: "string option"
  client :: "client option"

definition fresh_object :: storage where
  \<comment> \<open>what \<^verbatim>\<open>object.__new__(cls)\<close> returns: no attribute assigned\<close>
  "fresh_object = \<lparr>access_key = None, secret_key = None, account_id = None, client = None\<rparr>"

datatype cls = S3Storage | R2Storage

text \<open>
  \<^verbatim>\<open>StorageInterface.__new__\<close> keeps one object per concrete class in the class attribute
  \<^verbatim>\<open>_instance\<close> (the assignment \<^verbatim>\<open>cls._instance = ...\<close> writes the attribute of the
  concrete class). Each class has at most one object, so a reference to an adapter is
  the class it belongs to, and the heap is the pair of slots.
\<close>

record world =
  s3_instance :: "storage option"
  r2_instance :: "storage option"

definition initial_world :: world where
  "initial_world = \<lparr>s3_instance = None, r2_instance = None\<rparr>"

definition instance_of :: "cls \<Rightarrow> world \<Rightarrow> storage option" where
  "instance_of c w = (case c of S3Storage \<Rightarrow> s3_instance w | R2Storage \<Rightarrow> r2_instance w)"

definition set_instance :: "cls \<Rightarrow> storage \<Rightarrow> world \<Rightarrow> world" where
  "set_instance c obj w =
     (case c of S3Storage \<Rightarrow> w\<lparr>s3_instance := Some obj\<rparr>
              | R2Storage \<Rightarrow> w\<lparr>r2_instance := Some obj\<rparr>)"

definition new :: "cls \<Rightarrow> world \<Rightarrow> storage \<times> world" where
  \<comment> \<open>\<^verbatim>\<open>__new__\<close>: allocate only when \<^verbatim>\<open>cls._instance is None\<close>; return the slot's object\<close>
  "new c w =
     (case instance_of c w of
        None \<Rightarrow> (fresh_object, set_instance c fresh_object w)
      | Some obj \<Rightarrow> (obj, w))"

section \<open>Credential resolution and construction\<close>

definition s3_message :: "string list \<Rightarrow> string" where
  "s3_message missing_params =
     ''Hey! You forgot to provide these parameters: '' @ join '', '' missing_params @ ''! '' @
     ''Either pass them directly or set these environment variables: '' @
     ''S3_ACCESS_KEY_ID, S3_SECRET_ACCESS_KEY''"

definition r2_message :: "string list \<Rightarrow> string" where
  "r2_message missing_params =
     ''Hey! You forgot to provide these parameters: '' @ join '', '' missing_params @ ''! '' @
     ''Either pass them directly or set these environment variables: '' @
     ''R2_ACCESS_KEY_ID, R2_SECRET_ACCESS_KEY, R2_ACCOUNT_ID''"

definition region_or_auto :: "string option \<Rightarrow> string" where
  \<comment> \<open>\<^verbatim>\<open>'auto' if region is None else region\<close>\<close>
  "region_or_auto region = (case region of None \<Rightarrow> ''auto'' | Some r \<Rightarrow> r)"

text \<open>
  \<^verbatim>\<open>boto3.client('s3', ...)\<close> is outside the repository. It returns the handle, modelled by
  the keyword arguments, or raises: what it raises for given keyword arguments, if
  anything, is a parameter of the constructors.
\<close>

type_synonym boto3 = "client \<Rightarrow> exn option"

definition s3_kwargs :: "storage \<Rightarrow> string option \<Rightarrow> client" where
  \<comment> \<open>the keyword arguments of the call in \<^verbatim>\<open>S3Storage.__init__\<close>\<close>
  "s3_kwargs self region =
     \<lparr>aws_access_key_id = access_key self,
      aws_secret_access_key = secret_key self,
      endpoint_url = None,
      region_name = region_or_auto region\<rparr>"

text \<open>
  \<^verbatim>\<open>S3Storage.__init__\<close>. The attributes are assigned before the check, so the object is
  returned together with the exception, if one is raised. \<^verbatim>\<open>self.client\<close> is assigned by
  \<^verbatim>\<open>super().__init__(client)\<close>, after \<^verbatim>\<open>boto3.client\<close> has returned.
\<close>

definition s3_init ::
  "boto3 \<Rightarrow> environ \<Rightarrow> storage \<Rightarrow> string option \<Rightarrow> string option \<Rightarrow> string option
     \<Rightarrow> storage \<times> exn option" where
  "s3_init boto3_client env self access_key_arg secret_access_key_arg region =
     (let self1 = self\<lparr>access_key := py_or access_key_arg (env ''S3_ACCESS_KEY_ID'')\<rparr>;
          self2 = self1\<lparr>secret_key := py_or secret_access_key_arg (env ''S3_SECRET_ACCESS_KEY'')\<rparr>;
          missing_params =
            (if \<not> truthy (access_key self2) then [''access_key''] else []) @
            (if \<not> truthy (secret_key self2) then [''secret_access_key''] else [])
      in if missing_params \<noteq> [] then (self2, Some (ValueError (s3_message missing_params)))
         else (case boto3_client (s3_kwargs self2 region) of
                 Some e \<Rightarrow> (self2, Some e)
               | None \<Rightarrow> (self2\<lparr>client := Some (s3_kwargs self2 region)\<rparr>, None)))"

definition r2_endpoint :: "string option \<Rightarrow> string" where
  \<comment> \<open>the f-string of the endpoint; it is only evaluated once \<open>account_id\<close> is a non-empty string\<close>
  "r2_endpoint acct =
     ''https://'' @ (case acct of None \<Rightarrow> ''None'' | Some a \<Rightarrow> a) @ ''.r2.cloudflarestorage.com''"

definition r2_kwargs :: "storage \<Rightarrow> string option \<Rightarrow> client" where
  \<comment> \<open>the keyword arguments of the call in \<^verbatim>\<open>R2Storage.__init__\<close>\<close>
  "r2_kwargs self region =
     \<lparr>aws_access_key_id = access_key self,
      aws_secret_access_key = secret_key self,
      endpoint_url = Some (r2_endpoint (account_id self)),
      region_name = region_or_auto region\<rparr>"

text \<open>\<^verbatim>\<open>R2Storage.__init__\<close>.\<close>

definition r2_init ::
  "boto3 \<Rightarrow> environ \<Rightarrow> storage \<Rightarrow> string option \<Rightarrow> string option \<Rightarrow> string option
     \<Rightarrow> string option \<Rightarrow> storage \<times> exn option" where
  "r2_init boto3_client env self access_key_arg secret_access_key_arg account_id_arg region =
     (let self1 = self\<lparr>access_key := py_or access_key_arg (env ''R2_ACCESS_KEY_ID'')\<rparr>;
          self2 = self1\<lparr>secret_key := py_or secret_access_key_arg (env ''R2_SECRET_ACCESS_KEY'')\<rparr>;
          self3 = self2\<lparr>account_id := py_or account_id_arg (env ''R2_ACCOUNT_ID'')\<rparr>;
          missing_params =
            (if \<not> truthy (access_key self3) then [''access_key''] else []) @
            (if \<not> truthy (secret_key self3) then [''secret_access_key''] else []) @
            (if \<not> truthy (account_id self3) then [''account_id''] else [])
      in if missing_params \<noteq> [] then (self3, Some (ValueError (r2_message missing_params)))
         else (case boto3_client (r2_kwargs self3 region) of
                 Some e \<Rightarrow> (self3, Some e)
               | None \<Rightarrow> (self3\<lparr>client := Some (r2_kwargs self3 region)\<rparr>, None)))"

text \<open>
  The call \<^verbatim>\<open>S3Storage(...)\<close> or \<^verbatim>\<open>R2Storage(...)\<close>: \<^verbatim>\<open>__new__\<close> returns the object of the
  slot, \<^verbatim>\<open>__init__\<close> runs on it, and the caller receives the reference unless
  \<^verbatim>\<open>__init__\<close> raised. The arguments are gathered in a record; \<open>arg_account_id\<close> is
  ignored by \<^verbatim>\<open>S3Storage\<close>, which has no such parameter.
\<close>

record ctor_args =
  arg_access_key :: "string option"
  arg_secret_access_key :: "string option"
  arg_account_id :: "string option"
  arg_region :: "string option"

definition init ::
  "boto3 \<Rightarrow> cls \<Rightarrow> environ \<Rightarrow> storage \<Rightarrow> ctor_args \<Rightarrow> storage \<times> exn option" where
  "init boto3_client c env self a =
     (case c of
        S3Storage \<Rightarrow>
          s3_init boto3_client env self (arg_access_key a) (arg_secret_access_key a) (arg_region a)
      | R2Storage \<Rightarrow>
          r2_init boto3_client env self (arg_access_key a) (arg_secret_access_key a)
            (arg_account_id a) (arg_region a))"

definition construct ::
  "boto3 \<Rightarrow> cls \<Rightarrow> environ \<Rightarrow> ctor_args \<Rightarrow> world \<Rightarrow> (exn + cls) \<times> world" where
  "construct boto3_client c env a w =
     (case new c w of
        (self, w1) \<Rightarrow>
          (case init boto3_client c env self a of
             (self', Some e) \<Rightarrow> (Inl e, set_instance c self' w1)
           | (self', None) \<Rightarrow> (Inr c, set_instance c self' w1)))"

definition kwargs :: "cls \<Rightarrow> storage \<Rightarrow> string option \<Rightarrow> client" where
  \<comment> \<open>the keyword arguments that the constructor of a class passes to \<^verbatim>\<open>boto3.client\<close>\<close>
  "kwargs c self region =
     (case c of S3Storage \<Rightarrow> s3_kwargs self region | R2Storage \<Rightarrow> r2_kwargs self region)"

section \<open>URL formatter and path helpers\<close>

definition get_storage_url :: "cls \<Rightarrow> string \<Rightarrow> string \<Rightarrow> string" where
  \<comment> \<open>\<^verbatim>\<open>_get_storage_url\<close>, dispatched on the class of \<open>self\<close>\<close>
  "get_storage_url c bucket_name fpath_in_bucket =
     (case c of
        S3Storage \<Rightarrow> ''s3://'' @ bucket_name @ ''/'' @ fpath_in_bucket
      | R2Storage \<Rightarrow> ''r2://'' @ bucket_name @ ''/'' @ fpath_in_bucket)"


text \<open>
  \<^verbatim>\<open>os.path\<close> on a POSIX system (\<^verbatim>\<open>posixpath\<close>): \<^verbatim>\<open>basename(p)\<close> is \<^verbatim>\<open>p[i:]\<close> and the head
  is \<^verbatim>\<open>p[:i]\<close> for \<^verbatim>\<open>i = p.rfind('/') + 1\<close>; \<^verbatim>\<open>dirname\<close> strips the trailing slashes of the
  head unless the head consists of slashes only; \<^verbatim>\<open>split\<close> returns both.
\<close>

definition basename :: "string \<Rightarrow> string" where
  "basename p = rev (takeWhile (\<lambda>c. c \<noteq> CHR ''/'') (rev p))"

definition head_part :: "string \<Rightarrow> string" where
  "head_part p = rev (dropWhile (\<lambda>c. c \<noteq> CHR ''/'') (rev p))"

definition rstrip_sep :: "string \<Rightarrow> string" where
  \<comment> \<open>\<^verbatim>\<open>head.rstrip('/')\<close>\<close>
  "rstrip_sep s = rev (dropWhile (\<lambda>c. c = CHR ''/'') (rev s))"

definition dirname :: "string \<Rightarrow> string" where
  "dirname p =
     (let head = head_part p
      in if head \<noteq> [] \<and> head \<noteq> replicate (length head) CHR ''/'' then rstrip_sep head else head)"

definition split :: "string \<Rightarrow> string \<times> string" where
  "split p = (dirname p, basename p)"

section \<open>The local file system and \<^verbatim>\<open>os.makedirs\<close>\<close>

text \<open>
  The operating system resolves a path component by component, from the root when the path
  begins with a slash and from the current directory of the process otherwise. Every
  component is looked up in the node reached so far, which must exist and be a directory:
  an empty component and \<^verbatim>\<open>.\<close> stay there, \<^verbatim>\<open>..\<close> goes to the parent (the root is its own
  parent), and a name goes to the entry of that name, whether it exists or not. A node
  is addressed by the names that lead to it from the root, and the root always exists.
  So \<^verbatim>\<open>a/../b\<close> names \<^verbatim>\<open>b\<close> only when \<^verbatim>\<open>a\<close> is a directory. Symbolic links and
  permissions are not modelled.
\<close>

fun splitsep :: "string \<Rightarrow> string list" where
  \<comment> \<open>the pieces between the slashes, as \<^verbatim>\<open>p.split('/')\<close>\<close>
  "splitsep [] = [] # []"
| "splitsep (c # cs) =
     (if c = CHR ''/'' then [] # splitsep cs
      else (case splitsep cs of [] \<Rightarrow> [c] # [] | x # xs \<Rightarrow> (c # x) # xs))"

definition is_abs :: "string \<Rightarrow> bool" where
  "is_abs p = (case p of [] \<Rightarrow> False | c # cs \<Rightarrow> c = CHR ''/'')"

datatype node = Dir | File

record filesystem =
  nodes :: "string list \<rightharpoonup> node"
  cwd :: "string list"
    \<comment> \<open>the current directory of the process, as the names from the root\<close>

definition node_at :: "filesystem \<Rightarrow> string list \<Rightarrow> node option" where
  "node_at f k = (if k = [] then Some Dir else nodes f k)"

definition step :: "string list \<Rightarrow> string \<Rightarrow> string list" where
  \<comment> \<open>where a component leads from the directory \<open>cur\<close>\<close>
  "step cur c =
     (if c = [] \<or> c = ''.'' then cur else if c = ''..'' then butlast cur else cur @ [c])"

fun walk :: "filesystem \<Rightarrow> string list \<Rightarrow> string list \<Rightarrow> os_error + string list" where
  \<comment> \<open>follow the components from \<open>cur\<close>; the node that the last component leads to is not
      looked at\<close>
  "walk f cur [] = Inr cur"
| "walk f cur (c # cs) =
     (case node_at f cur of
        None \<Rightarrow> Inl FileNotFoundError
      | Some File \<Rightarrow> Inl NotADirectoryError
      | Some Dir \<Rightarrow> walk f (step cur c) cs)"

definition start :: "filesystem \<Rightarrow> string \<Rightarrow> string list" where
  "start f p = (if is_abs p then [] else cwd f)"

definition lookup :: "filesystem \<Rightarrow> string \<Rightarrow> node option" where
  \<comment> \<open>\<^verbatim>\<open>os.stat(p)\<close>; \<open>None\<close> when it raises\<close>
  "lookup f p =
     (if p = [] then None
      else (case walk f (start f p) (splitsep p) of
              Inl e \<Rightarrow> None
            | Inr k \<Rightarrow> node_at f k))"

definition exists :: "filesystem \<Rightarrow> string \<Rightarrow> bool" where
  \<comment> \<open>\<^verbatim>\<open>os.path.exists\<close>\<close>
  "exists f p = (lookup f p \<noteq> None)"

definition isdir :: "filesystem \<Rightarrow> string \<Rightarrow> bool" where
  \<comment> \<open>\<^verbatim>\<open>os.path.isdir\<close>\<close>
  "isdir f p = (lookup f p = Some Dir)"

definition strip_empty :: "string list \<Rightarrow> string list" where
  \<comment> \<open>without the empty components at the end, which trailing slashes leave\<close>
  "strip_empty cs = rev (dropWhile (\<lambda>c. c = []) (rev cs))"

definition mkdir :: "filesystem \<Rightarrow> string \<Rightarrow> os_error option \<times> filesystem" where
  \<comment> \<open>\<^verbatim>\<open>os.mkdir(name)\<close>: the system call; \<open>None\<close> when it returns normally. Trailing
      slashes are ignored, the path before the last component must lead to a directory,
      and the last component must be a name that does not exist there.\<close>
  "mkdir f name =
     (if name = [] then (Some FileNotFoundError, f)
      else
        (let cs = strip_empty (splitsep name) in
         if cs = [] then (Some FileExistsError, f)
         else
           (case walk f (start f name) (butlast cs) of
              Inl e \<Rightarrow> (Some e, f)
            | Inr par \<Rightarrow>
                (case node_at f par of
                   None \<Rightarrow> (Some FileNotFoundError, f)
                 | Some File \<Rightarrow> (Some NotADirectoryError, f)
                 | Some Dir \<Rightarrow>
                     if last cs = ''.'' \<or> last cs = ''..'' \<or> node_at f (par @ [last cs]) \<noteq> None
                     then (Some FileExistsError, f)
                     else (None, f\<lparr>nodes := (nodes f)(par @ [last cs] \<mapsto> Dir)\<rparr>)))))"

definition mkdir_leaf :: "filesystem \<Rightarrow> string \<Rightarrow> bool \<Rightarrow> os_error option \<times> filesystem" where
  \<comment> \<open>the last statement of \<^verbatim>\<open>os.makedirs\<close>: \<^verbatim>\<open>mkdir\<close>, whose error is dropped when
      \<^verbatim>\<open>exist_ok\<close> holds and the name is a directory\<close>
  "mkdir_leaf f name exist_ok =
     (case mkdir f name of
        (None, f') \<Rightarrow> (None, f')
      | (Some e, f') \<Rightarrow> if \<not> exist_ok \<or> \<not> isdir f' name then (Some e, f') else (None, f'))"

text \<open>
  \<^verbatim>\<open>os.makedirs(name, exist_ok=exist_ok)\<close>, after the standard library: split off the last
  component (once more when the name ends in a slash), create the head first when it does
  not exist, ignoring \<^verbatim>\<open>FileExistsError\<close> from that, stop when the last component is
  \<^verbatim>\<open>.\<close>, and create the leaf. The file system is returned together with the error, since
  the directories made before an error stay.
\<close>

function makedirs :: "filesystem \<Rightarrow> string \<Rightarrow> bool \<Rightarrow> os_error option \<times> filesystem" where
  "makedirs f name exist_ok =
     (let (head, tail) = (if basename name = [] then split (dirname name) else split name) in
      if head \<noteq> [] \<and> tail \<noteq> [] \<and> \<not> exists f head then
        (case makedirs f head exist_ok of
           (Some e, f1) \<Rightarrow>
             if e \<noteq> FileExistsError then (Some e, f1)
             else if tail = ''.'' then (None, f1)
             else mkdir_leaf f1 name exist_ok
         | (None, f1) \<Rightarrow>
             if tail = ''.'' then (None, f1) else mkdir_leaf f1 name exist_ok)
      else mkdir_leaf f name exist_ok)"
  by pat_completeness auto
termination
proof (relation "measure (\<lambda>(f, name, exist_ok). length name)")
  show "wf (measure (\<lambda>(f, name, exist_ok). length name))"
    by simp
next
  fix f :: filesystem and name :: string and exist_ok :: bool and x :: "string \<times> string"
    and head tail :: string
  assume x: "x = (if basename name = [] then split (dirname name) else split name)"
    and ht: "(head, tail) = x"
    and cond: "head \<noteq> [] \<and> tail \<noteq> [] \<and> \<not> exists f head"
  have parts: "head_part p @ basename p = p" for p :: string
    unfolding head_part_def basename_def
    by (metis rev_append rev_rev_ident takeWhile_dropWhile_id)
  have shorter: "length (dirname p) \<le> length (head_part p)" for p :: string
    by (simp add: dirname_def rstrip_sep_def Let_def)
       (metis length_dropWhile_le length_rev)
  have strictly: "length (dirname p) < length p" if "basename p \<noteq> []" for p :: string
  proof -
    have "length p = length (head_part p) + length (basename p)"
      by (metis parts length_append)
    with that shorter [of p] show ?thesis
      by (cases "basename p") auto
  qed
  have "length head < length name"
  proof (cases "basename name = []")
    case True
    with x ht have "head = dirname (dirname name)" and "tail = basename (dirname name)"
      by (simp_all add: split_def)
    with cond have "length head < length (dirname name)"
      using strictly by blast
    moreover have "length (dirname name) \<le> length name"
      by (metis shorter parts length_append le_add1 order_trans)
    ultimately show ?thesis by simp
  next
    case False
    with x ht have "head = dirname name"
      by (simp add: split_def)
    with False show ?thesis
      using strictly by blast
  qed
  then show "((f, head, exist_ok), (f, name, exist_ok)) \<in> measure (\<lambda>(f, name, exist_ok). length name)"
    by simp
qed

declare makedirs.simps [simp del]

text \<open>
  The nodes that the resolution of a path passes, the last one included, whether they
  exist or not. No regular file is in the way of a path when none of these nodes is a
  regular file. A file system is shaped like a tree when every node has directories above
  it, as every file system reached through system calls is.
\<close>

fun trail :: "string list \<Rightarrow> string list \<Rightarrow> string list list" where
  "trail cur [] = [cur]"
| "trail cur (c # cs) = cur # trail (step cur c) cs"

definition no_file_on :: "filesystem \<Rightarrow> string \<Rightarrow> bool" where
  "no_file_on f p =
     list_all (\<lambda>k. node_at f k \<noteq> Some File) (trail (start f p) (splitsep p))"

definition tree_like :: "filesystem \<Rightarrow> bool" where
  "tree_like f =
     (\<forall>k n. nodes f k \<noteq> None \<and> 0 < n \<and> n < length k \<longrightarrow> nodes f (take n k) = Some Dir)"

section \<open>The SDK client\<close>

text \<open>
  The calls on \<^verbatim>\<open>self.client\<close> reach the boto3 client, which is outside the repository.
  Everything a call can read or change beyond the adapter objects is the outer state: the
  local file system and the state of the remote service, of an arbitrary type \<open>'r\<close>.
  A call returns normally or raises, and returns the outer state it leaves behind.
\<close>

record 'r outer =
  fs :: filesystem
  remote :: 'r

record s3_object =
  Key :: string
  Size :: int
  LastModified :: int

record list_response =
  Contents :: "s3_object list option"
    \<comment> \<open>\<open>None\<close>: the response has no \<^verbatim>\<open>'Contents'\<close> entry\<close>

record head_response =
  ContentLength :: int
  ContentType :: "string option"
  HeadLastModified :: int
  Metadata :: "(string \<times> string) list option"

record 'r sdk =
  client_upload_file ::
    "client \<Rightarrow> string \<Rightarrow> string \<Rightarrow> string \<Rightarrow> 'r outer \<Rightarrow> (exn + unit) \<times> 'r outer"
  client_download_file ::
    "client \<Rightarrow> string \<Rightarrow> string \<Rightarrow> string \<Rightarrow> 'r outer \<Rightarrow> (exn + unit) \<times> 'r outer"
  client_list_objects_v2 ::
    "client \<Rightarrow> string \<Rightarrow> string option \<Rightarrow> 'r outer \<Rightarrow> (exn + list_response) \<times> 'r outer"
  client_delete_object ::
    "client \<Rightarrow> string \<Rightarrow> string \<Rightarrow> 'r outer \<Rightarrow> (exn + unit) \<times> 'r outer"
  client_head_object ::
    "client \<Rightarrow> string \<Rightarrow> string \<Rightarrow> 'r outer \<Rightarrow> (exn + head_response) \<times> 'r outer"

definition call_client ::
  "storage \<Rightarrow> (client \<Rightarrow> 'o \<Rightarrow> (exn + 'a) \<times> 'o) \<Rightarrow> 'o \<Rightarrow> (exn + 'a) \<times> 'o" where
  \<comment> \<open>\<^verbatim>\<open>self.client.m(...)\<close>; the attribute lookup fails on an object without a client\<close>
  "call_client self m out =
     (case client self of
        None \<Rightarrow> (Inl (OtherError ''AttributeError'' ''client''), out)
      | Some cl \<Rightarrow> m cl out)"

definition except_ClientError :: "string \<Rightarrow> exn \<Rightarrow> exn" where
  \<comment> \<open>\<^verbatim>\<open>except ClientError as e: raise Exception(f"<prefix>{str(e)}")\<close>; an exception of
      another class is not caught\<close>
  "except_ClientError prefix e =
     (case e of ClientError m \<Rightarrow> PyException (prefix @ m) | _ \<Rightarrow> e)"

section \<open>The six operations of \<^verbatim>\<open>S3BaseStorage\<close>\<close>

definition upload_file ::
  "'r sdk \<Rightarrow> cls \<Rightarrow> storage \<Rightarrow> string \<Rightarrow> string \<Rightarrow> string option \<Rightarrow> 'r outer
     \<Rightarrow> (exn + string \<times> string) \<times> 'r outer" where
  "upload_file sdk c self local_fpath bucket_name fpath_in_bucket out =
     (let fpath_in_bucket1 =
            (case fpath_in_bucket of None \<Rightarrow> basename local_fpath | Some k \<Rightarrow> k)
      in case call_client self
                (\<lambda>cl. client_upload_file sdk cl local_fpath bucket_name fpath_in_bucket1) out of
           (Inr u, out1) \<Rightarrow>
             (Inr (fpath_in_bucket1, get_storage_url c bucket_name fpath_in_bucket1), out1)
         | (Inl e, out1) \<Rightarrow> (Inl (except_ClientError ''Upload failed: '' e), out1))"

definition download_file ::
  "'r sdk \<Rightarrow> storage \<Rightarrow> string \<Rightarrow> string \<Rightarrow> string option \<Rightarrow> 'r outer
     \<Rightarrow> (exn + string) \<times> 'r outer" where
  "download_file sdk self bucket_name fpath_in_bucket local_fpath out =
     (let local_fpath1 =
            (case local_fpath of None \<Rightarrow> basename fpath_in_bucket | Some p \<Rightarrow> p);
          directory = dirname local_fpath1
      in case (if directory \<noteq> [] then makedirs (fs out) directory True else (None, fs out)) of
           (Some e, f1) \<Rightarrow> (Inl (OSError e), out\<lparr>fs := f1\<rparr>)
         | (None, f1) \<Rightarrow>
             (case call_client self
                     (\<lambda>cl. client_download_file sdk cl bucket_name fpath_in_bucket local_fpath1)
                     (out\<lparr>fs := f1\<rparr>) of
                (Inr u, out1) \<Rightarrow> (Inr local_fpath1, out1)
              | (Inl e, out1) \<Rightarrow> (Inl (except_ClientError ''Download failed: '' e), out1)))"

record file_entry =
  key :: string
  size_in_bytes :: int
    \<comment> \<open>the entry \<^verbatim>\<open>'size'\<close> of the dictionary\<close>
  last_modified :: int

definition entry_of :: "s3_object \<Rightarrow> file_entry" where
  "entry_of obj = \<lparr>key = Key obj, size_in_bytes = Size obj, last_modified = LastModified obj\<rparr>"

definition list_files ::
  "'r sdk \<Rightarrow> storage \<Rightarrow> string \<Rightarrow> string option \<Rightarrow> 'r outer
     \<Rightarrow> (exn + file_entry list) \<times> 'r outer" where
  "list_files sdk self bucket_name prefix out =
     (case call_client self
             (\<lambda>cl. if truthy prefix then client_list_objects_v2 sdk cl bucket_name prefix
                   else client_list_objects_v2 sdk cl bucket_name None) out of
        (Inr response, out1) \<Rightarrow>
          (Inr (map entry_of (case Contents response of None \<Rightarrow> [] | Some objs \<Rightarrow> objs)), out1)
      | (Inl e, out1) \<Rightarrow> (Inl (except_ClientError ''Listing failed: '' e), out1))"

definition delete_file ::
  "'r sdk \<Rightarrow> storage \<Rightarrow> string \<Rightarrow> string \<Rightarrow> 'r outer \<Rightarrow> (exn + bool) \<times> 'r outer" where
  "delete_file sdk self bucket_name fpath_in_bucket out =
     (case call_client self (\<lambda>cl. client_delete_object sdk cl bucket_name fpath_in_bucket) out of
        (Inr u, out1) \<Rightarrow> (Inr True, out1)
      | (Inl e, out1) \<Rightarrow> (Inl (except_ClientError ''Deletion failed: '' e), out1))"

definition file_exists ::
  "'r sdk \<Rightarrow> storage \<Rightarrow> string \<Rightarrow> string \<Rightarrow> 'r outer \<Rightarrow> (exn + bool) \<times> 'r outer" where
  "file_exists sdk self bucket_name fpath_in_bucket out =
     (case call_client self (\<lambda>cl. client_head_object sdk cl bucket_name fpath_in_bucket) out of
        (Inr response, out1) \<Rightarrow> (Inr True, out1)
      | (Inl (ClientError m), out1) \<Rightarrow> (Inr False, out1)
      | (Inl e, out1) \<Rightarrow> (Inl e, out1))"

record file_metadata =
  content_length :: int
  content_type :: "string option"
  metadata_last_modified :: int
    \<comment> \<open>the entry \<^verbatim>\<open>'last_modified'\<close> of the dictionary\<close>
  metadata :: "(string \<times> string) list"

definition get_file_metadata ::
  "'r sdk \<Rightarrow> storage \<Rightarrow> string \<Rightarrow> string \<Rightarrow> 'r outer \<Rightarrow> (exn + file_metadata) \<times> 'r outer" where
  "get_file_metadata sdk self bucket_name fpath_in_bucket out =
     (case call_client self (\<lambda>cl. client_head_object sdk cl bucket_name fpath_in_bucket) out of
        (Inr response, out1) \<Rightarrow>
          (Inr \<lparr>content_length = ContentLength response,
                content_type = ContentType response,
                metadata_last_modified = HeadLastModified response,
                metadata = (case Metadata response of None \<Rightarrow> [] | Some m \<Rightarrow> m)\<rparr>, out1)
      | (Inl e, out1) \<Rightarrow> (Inl (except_ClientError ''Failed to get metadata: '' e), out1))"


section \<open>Sequences of calls\<close>

text \<open>
  A caller constructs adapters and calls their methods in some order. The methods of
  \<^verbatim>\<open>S3BaseStorage\<close> read \<^verbatim>\<open>self.client\<close> and assign no attribute, so a method call leaves
  the objects as they are and changes the outer state only. A method of a class that has
  no object yet cannot be called. Each construction sees the environment of its moment.
\<close>

datatype call =
    Construct cls environ ctor_args
  | UploadFile cls string string "string option"
  | DownloadFile cls string string "string option"
  | ListFiles cls string "string option"
  | DeleteFile cls string string
  | FileExists cls string string
  | GetFileMetadata cls string string

record 'r system =
  objects :: world
  outside :: "'r outer"

definition on_instance ::
  "cls \<Rightarrow> (storage \<Rightarrow> 'r outer \<Rightarrow> 'x \<times> 'r outer) \<Rightarrow> 'r system \<Rightarrow> 'r system" where
  "on_instance c m s =
     (case instance_of c (objects s) of
        None \<Rightarrow> s
      | Some self \<Rightarrow> s\<lparr>outside := snd (m self (outside s))\<rparr>)"

fun exec :: "boto3 \<Rightarrow> 'r sdk \<Rightarrow> call \<Rightarrow> 'r system \<Rightarrow> 'r system" where
  "exec boto3_client sdk (Construct c env a) s = s\<lparr>objects := snd (construct boto3_client c env a (objects s))\<rparr>"
| "exec boto3_client sdk (UploadFile c p b k) s = on_instance c (\<lambda>self. upload_file sdk c self p b k) s"
| "exec boto3_client sdk (DownloadFile c b k p) s = on_instance c (\<lambda>self. download_file sdk self b k p) s"
| "exec boto3_client sdk (ListFiles c b p) s = on_instance c (\<lambda>self. list_files sdk self b p) s"
| "exec boto3_client sdk (DeleteFile c b k) s = on_instance c (\<lambda>self. delete_file sdk self b k) s"
| "exec boto3_client sdk (FileExists c b k) s = on_instance c (\<lambda>self. file_exists sdk self b k) s"
| "exec boto3_client sdk (GetFileMetadata c b k) s = on_instance c (\<lambda>self. get_file_metadata sdk self b k) s"

fun run :: "boto3 \<Rightarrow> 'r sdk \<Rightarrow> call list \<Rightarrow> 'r system \<Rightarrow> 'r system" where
  "run boto3_client sdk [] s = s"
| "run boto3_client sdk (x # xs) s = run boto3_client sdk xs (exec boto3_client sdk x s)"

fun constructs :: "cls \<Rightarrow> call \<Rightarrow> bool" where
  "constructs c (Construct c' env a) = (c' = c)"
| "constructs c other = False"

section \<open>Two backends for the examples\<close>

text \<open>
  A service held in memory, as a list of buckets paired with objects: a missing object is
  answered by a \<^verbatim>\<open>ClientError\<close>, and a listing without results has no \<^verbatim>\<open>'Contents'\<close>.
  The second backend cannot be reached; its calls raise botocore's
  \<^verbatim>\<open>EndpointConnectionError\<close>, which is not a \<^verbatim>\<open>ClientError\<close>.
\<close>

definition startswith :: "string \<Rightarrow> string \<Rightarrow> bool" where
  \<comment> \<open>\<^verbatim>\<open>s.startswith(p)\<close>\<close>
  "startswith s p = (take (length p) s = p)"

type_synonym mem_remote = "(string \<times> s3_object) list"

definition objects_in :: "mem_remote \<Rightarrow> string \<Rightarrow> s3_object list" where
  "objects_in r b = map snd (filter (\<lambda>x. fst x = b) r)"

definition not_found :: exn where
  "not_found = ClientError ''An error occurred (404) when calling the HeadObject operation: Not Found''"

definition create_file :: "filesystem \<Rightarrow> string \<Rightarrow> os_error + filesystem" where
  \<comment> \<open>the file that a download writes: it is created in the directory that holds it\<close>
  "create_file f p =
     (case walk f (start f p) (butlast (splitsep p)) of
        Inl e \<Rightarrow> Inl e
      | Inr par \<Rightarrow>
          (case node_at f par of
             None \<Rightarrow> Inl FileNotFoundError
           | Some File \<Rightarrow> Inl NotADirectoryError
           | Some Dir \<Rightarrow>
               if last (splitsep p) \<in> {[], ''.'', ''..''} \<or>
                  node_at f (par @ [last (splitsep p)]) = Some Dir
               then Inl FileExistsError
               else Inr (f\<lparr>nodes := (nodes f)(par @ [last (splitsep p)] \<mapsto> File)\<rparr>)))"

definition mem_sdk :: "mem_remote sdk" where
  "mem_sdk =
     \<lparr>client_upload_file = (\<lambda>cl p b k out.
        (Inr (), out\<lparr>remote := remote out @ [(b, \<lparr>Key = k, Size = 0, LastModified = 0\<rparr>)]\<rparr>)),
      client_download_file = (\<lambda>cl b k p out.
        (case filter (\<lambda>obj. Key obj = k) (objects_in (remote out) b) of
           [] \<Rightarrow> (Inl not_found, out)
         | obj # objs \<Rightarrow>
             (case create_file (fs out) p of
                Inl e \<Rightarrow> (Inl (OSError e), out)
              | Inr f1 \<Rightarrow> (Inr (), out\<lparr>fs := f1\<rparr>)))),
      client_list_objects_v2 = (\<lambda>cl b p out.
        (case filter (\<lambda>obj. startswith (Key obj) (case p of None \<Rightarrow> [] | Some q \<Rightarrow> q))
                (objects_in (remote out) b) of
           [] \<Rightarrow> (Inr \<lparr>Contents = None\<rparr>, out)
         | obj # objs \<Rightarrow> (Inr \<lparr>Contents = Some (obj # objs)\<rparr>, out))),
      client_delete_object = (\<lambda>cl b k out.
        (Inr (), out\<lparr>remote := filter (\<lambda>x. \<not> (fst x = b \<and> Key (snd x) = k)) (remote out)\<rparr>)),
      client_head_object = (\<lambda>cl b k out.
        (case filter (\<lambda>obj. Key obj = k) (objects_in (remote out) b) of
           [] \<Rightarrow> (Inl not_found, out)
         | obj # objs \<Rightarrow>
             (Inr \<lparr>ContentLength = Size obj, ContentType = None,
                   HeadLastModified = LastModified obj, Metadata = None\<rparr>, out)))\<rparr>"

definition unreachable :: exn where
  "unreachable = OtherError ''EndpointConnectionError'' ''Could not connect to the endpoint URL''"

definition offline_sdk :: "unit sdk" where
  "offline_sdk =
     \<lparr>client_upload_file = (\<lambda>cl p b k out. (Inl unreachable, out)),
      client_download_file = (\<lambda>cl b k p out. (Inl unreachable, out)),
      client_list_objects_v2 = (\<lambda>cl b p out. (Inl unreachable, out)),
      client_delete_object = (\<lambda>cl b k out. (Inl unreachable, out)),
      client_head_object = (\<lambda>cl b k out. (Inl unreachable, out))\<rparr>"

definition some_client :: client where
  "some_client =
     \<lparr>aws_access_key_id = Some ''AKIA'', aws_secret_access_key = Some ''secret'',
      endpoint_url = None, region_name = ''auto''\<rparr>"

definition some_storage :: storage where
  \<comment> \<open>the object that \<^verbatim>\<open>S3Storage('AKIA', 'secret')\<close> initialises\<close>
  "some_storage =
     \<lparr>access_key = Some ''AKIA'', secret_key = Some ''secret'', account_id = None,
      client = Some some_client\<rparr>"

definition mem_outer :: "mem_remote outer" where
  "mem_outer =
     \<lparr>fs = \<lparr>nodes = [([''work'']) \<mapsto> Dir], cwd = [''work'']\<rparr>,
      remote = [(''mybucket'', \<lparr>Key = ''a/b.txt'', Size = 3, LastModified = 10\<rparr>),
                (''mybucket'', \<lparr>Key = ''a/c.txt'', Size = 4, LastModified = 11\<rparr>),
                (''mybucket'', \<lparr>Key = ''d.txt'', Size = 5, LastModified = 12\<rparr>)]\<rparr>"

definition offline_outer :: "unit outer" where
  "offline_outer = \<lparr>fs = \<lparr>nodes = Map.empty, cwd = []\<rparr>, remote = ()\<rparr>"


section \<open>The vocabulary of the specification\<close>

text \<open>
  The specification speaks of the required fields of a backend, of the explicit parameter
  and the environment variable of each field, and of a field being missing: neither the
  parameter nor the variable gives a non-empty string. These definitions follow the
  specification; the constructors above do not use them.
\<close>

definition required_fields :: "cls \<Rightarrow> string list" where
  "required_fields c =
     (case c of
        S3Storage \<Rightarrow> [''access_key'', ''secret_access_key'']
      | R2Storage \<Rightarrow> [''access_key'', ''secret_access_key'', ''account_id''])"

definition explicit_param :: "ctor_args \<Rightarrow> string \<Rightarrow> string option" where
  "explicit_param a f =
     (if f = ''access_key'' then arg_access_key a
      else if f = ''secret_access_key'' then arg_secret_access_key a
      else if f = ''account_id'' then arg_account_id a
      else None)"

definition env_var_of :: "cls \<Rightarrow> string \<Rightarrow> string" where
  "env_var_of c f =
     (case c of
        S3Storage \<Rightarrow>
          (if f = ''access_key'' then ''S3_ACCESS_KEY_ID''
           else if f = ''secret_access_key'' then ''S3_SECRET_ACCESS_KEY'' else [])
      | R2Storage \<Rightarrow>
          (if f = ''access_key'' then ''R2_ACCESS_KEY_ID''
           else if f = ''secret_access_key'' then ''R2_SECRET_ACCESS_KEY''
           else if f = ''account_id'' then ''R2_ACCOUNT_ID'' else []))"

definition spec_missing :: "cls \<Rightarrow> environ \<Rightarrow> ctor_args \<Rightarrow> string \<Rightarrow> bool" where
  "spec_missing c env a f =
     (explicit_param a f \<in> {None, Some []} \<and> env (env_var_of c f) \<in> {None, Some []})"


definition credential :: "storage \<Rightarrow> string \<Rightarrow> string option" where
  \<comment> \<open>the attribute that holds the resolved value of a field\<close>
  "credential self f =
     (if f = ''access_key'' then access_key self
      else if f = ''secret_access_key'' then secret_key self
      else if f = ''account_id'' then account_id self
      else None)"

definition message :: "cls \<Rightarrow> string list \<Rightarrow> string" where
  "message c ms = (case c of S3Storage \<Rightarrow> s3_message ms | R2Storage \<Rightarrow> r2_message ms)"





definition first_args :: ctor_args where
  "first_args =
     \<lparr>arg_access_key = Some ''AKIA'', arg_secret_access_key = Some ''secret'',
      arg_account_id = None, arg_region = None\<rparr>"

definition second_args :: ctor_args where
  "second_args =
     \<lparr>arg_access_key = Some ''OTHER'', arg_secret_access_key = Some ''other-secret'',
      arg_account_id = None, arg_region = None\<rparr>"

definition one_adapter :: world where
  "one_adapter = \<lparr>s3_instance = Some some_storage, r2_instance = None\<rparr>"

definition r2_args :: ctor_args where
  "r2_args =
     \<lparr>arg_access_key = Some ''R2KEY'', arg_secret_access_key = Some ''r2-secret'',
      arg_account_id = Some ''acct'', arg_region = None\<rparr>"

definition mixed_calls :: "call list" where
  "mixed_calls =
     [UploadFile S3Storage ''reports/2024/summary.pdf'' ''mybucket'' None,
      Construct R2Storage Map.empty r2_args,
      FileExists S3Storage ''mybucket'' ''summary.pdf'',
      ListFiles R2Storage ''mybucket'' (Some ''a/''),
      DownloadFile S3Storage ''mybucket'' ''a/b.txt'' (Some ''out/nested/file.txt''),
      GetFileMetadata S3Storage ''mybucket'' ''d.txt'',
      DeleteFile S3Storage ''mybucket'' ''d.txt'']"

definition nested_outer :: "mem_remote outer" where
  \<comment> \<open>\<open>mem_outer\<close> after a download to \<^verbatim>\<open>out/nested/file.txt\<close>\<close>
  "nested_outer =
     mem_outer\<lparr>fs :=
       \<lparr>nodes = [([''work'']) \<mapsto> Dir, ([''work'', ''out'']) \<mapsto> Dir,
                 ([''work'', ''out'', ''nested'']) \<mapsto> Dir,
                 ([''work'', ''out'', ''nested'', ''file.txt'']) \<mapsto> File],
        cwd = [''work'']\<rparr>\<rparr>"

definition strict_boto3 :: boto3 where
  \<comment> \<open>a \<^verbatim>\<open>boto3.client\<close> that rejects an endpoint URL with a space in it, as botocore does\<close>
  "strict_boto3 kw =
     (case endpoint_url kw of
        None \<Rightarrow> None
      | Some url \<Rightarrow>
          if CHR '' '' \<in> set url then Some (ValueError (''Invalid endpoint: '' @ url)) else None)"




section \<open>Truthiness and the list of missing fields\<close>

lemma truthy_simps [simp]: "truthy None = False" "truthy (Some s) = (s \<noteq> [])"
  by (simp_all add: truthy_def)

lemma not_truthy_iff: "\<not> truthy v \<longleftrightarrow> v \<in> {None, Some []}"
  by (cases v) auto

lemma py_or_truthy: "truthy (py_or a b) \<longleftrightarrow> truthy a \<or> truthy b"
  by (simp add: py_or_def)

lemma spec_missing_py_or:
  "spec_missing c env a f \<longleftrightarrow> \<not> truthy (py_or (explicit_param a f) (env (env_var_of c f)))"
  by (simp add: spec_missing_def py_or_truthy not_truthy_iff)

lemma explicit_param_simps:
  "explicit_param a ''access_key'' = arg_access_key a"
  "explicit_param a ''secret_access_key'' = arg_secret_access_key a"
  "explicit_param a ''account_id'' = arg_account_id a"
  by (simp_all add: explicit_param_def)

lemma env_var_of_simps:
  "env_var_of S3Storage ''access_key'' = ''S3_ACCESS_KEY_ID''"
  "env_var_of S3Storage ''secret_access_key'' = ''S3_SECRET_ACCESS_KEY''"
  "env_var_of R2Storage ''access_key'' = ''R2_ACCESS_KEY_ID''"
  "env_var_of R2Storage ''secret_access_key'' = ''R2_SECRET_ACCESS_KEY''"
  "env_var_of R2Storage ''account_id'' = ''R2_ACCOUNT_ID''"
  by (simp_all add: env_var_of_def)

lemma filter_if_append: "filter P (x # xs) = (if P x then [x] else []) @ filter P xs"
  by simp

lemma s3_missing_list:
  "filter (spec_missing S3Storage env a) (required_fields S3Storage) =
     (if \<not> truthy (py_or (arg_access_key a) (env ''S3_ACCESS_KEY_ID''))
      then [''access_key''] else []) @
     (if \<not> truthy (py_or (arg_secret_access_key a) (env ''S3_SECRET_ACCESS_KEY''))
      then [''secret_access_key''] else [])"
  unfolding required_fields_def cls.case filter_if_append spec_missing_py_or
    explicit_param_simps env_var_of_simps
  by (simp only: filter.simps append_Nil2)

lemma r2_missing_list:
  "filter (spec_missing R2Storage env a) (required_fields R2Storage) =
     (if \<not> truthy (py_or (arg_access_key a) (env ''R2_ACCESS_KEY_ID''))
      then [''access_key''] else []) @
     (if \<not> truthy (py_or (arg_secret_access_key a) (env ''R2_SECRET_ACCESS_KEY''))
      then [''secret_access_key''] else []) @
     (if \<not> truthy (py_or (arg_account_id a) (env ''R2_ACCOUNT_ID''))
      then [''account_id''] else [])"
  unfolding required_fields_def cls.case filter_if_append spec_missing_py_or
    explicit_param_simps env_var_of_simps
  by (simp only: filter.simps append_Nil2)

lemma snd_init_s3:
  "snd (s3_init bc env self ak sk rg) =
     (let ms = (if \<not> truthy (py_or ak (env ''S3_ACCESS_KEY_ID'')) then [''access_key''] else []) @
               (if \<not> truthy (py_or sk (env ''S3_SECRET_ACCESS_KEY''))
                then [''secret_access_key''] else [])
      in if ms = [] then bc (s3_kwargs (fst (s3_init bc env self ak sk rg)) rg)
         else Some (ValueError (s3_message ms)))"
  by (simp add: s3_init_def Let_def s3_kwargs_def split: option.splits)

lemma snd_init_r2:
  "snd (r2_init bc env self ak sk ac rg) =
     (let ms = (if \<not> truthy (py_or ak (env ''R2_ACCESS_KEY_ID'')) then [''access_key''] else []) @
               (if \<not> truthy (py_or sk (env ''R2_SECRET_ACCESS_KEY''))
                then [''secret_access_key''] else []) @
               (if \<not> truthy (py_or ac (env ''R2_ACCOUNT_ID'')) then [''account_id''] else [])
      in if ms = [] then bc (r2_kwargs (fst (r2_init bc env self ak sk ac rg)) rg)
         else Some (ValueError (r2_message ms)))"
  by (simp add: r2_init_def Let_def r2_kwargs_def split: option.splits)

lemma snd_init:
  "snd (init bc c env self a) =
     (let ms = filter (spec_missing c env a) (required_fields c)
      in if ms = [] then bc (kwargs c (fst (init bc c env self a)) (arg_region a))
         else Some (ValueError (message c ms)))"
proof (cases c)
  case S3Storage
  then show ?thesis
    unfolding init_def message_def kwargs_def
    by (simp only: cls.case snd_init_s3 s3_missing_list)
next
  case R2Storage
  then show ?thesis
    unfolding init_def message_def kwargs_def
    by (simp only: cls.case snd_init_r2 r2_missing_list)
qed

lemma snd_init_missing:
  "filter (spec_missing c env a) (required_fields c) \<noteq> [] \<Longrightarrow>
     snd (init bc c env self a) =
       Some (ValueError (message c (filter (spec_missing c env a) (required_fields c))))"
  by (simp add: snd_init Let_def)

lemma fst_construct:
  "fst (construct bc c env a w) =
     (case snd (init bc c env (fst (new c w)) a) of None \<Rightarrow> Inr c | Some e \<Rightarrow> Inl e)"
  by (simp add: construct_def split: prod.splits option.splits)

section \<open>Storage URLs and the key of an upload\<close>

lemma head_part_basename: "head_part p @ basename p = p"
  unfolding head_part_def basename_def
  by (metis rev_append rev_rev_ident takeWhile_dropWhile_id)

lemma length_dirname_le: "length (dirname p) \<le> length (head_part p)"
  by (simp add: dirname_def rstrip_sep_def Let_def)
     (metis length_dropWhile_le length_rev)

lemma length_dirname_less: "basename p \<noteq> [] \<Longrightarrow> length (dirname p) < length p"
proof -
  assume nonempty: "basename p \<noteq> []"
  have "length p = length (head_part p) + length (basename p)"
    by (metis head_part_basename length_append)
  with nonempty length_dirname_le [of p] show ?thesis
    by (cases "basename p") auto
qed

lemma basename_no_sep: "CHR ''/'' \<notin> set (basename p)"
proof -
  have "\<forall>c \<in> set (takeWhile (\<lambda>c. c \<noteq> CHR ''/'') (rev p)). c \<noteq> CHR ''/''"
    using set_takeWhileD by fastforce
  then show ?thesis by (auto simp: basename_def)
qed

lemma head_part_ends_sep: "head_part p = [] \<or> last (head_part p) = CHR ''/''"
proof (cases "dropWhile (\<lambda>c. c \<noteq> CHR ''/'') (rev p)")
  case Nil
  then show ?thesis by (simp add: head_part_def)
next
  case (Cons x xs)
  then have "x = CHR ''/''"
    using hd_dropWhile [of "\<lambda>c. c \<noteq> CHR ''/''" "rev p"] by force
  with Cons show ?thesis by (simp add: head_part_def)
qed

lemma basename_example: "basename ''reports/2024/summary.pdf'' = ''summary.pdf''"
  by (simp add: basename_def)

lemma upload_example:
  "upload_file mem_sdk c some_storage ''reports/2024/summary.pdf'' ''mybucket'' None mem_outer =
     (Inr (''summary.pdf'', get_storage_url c ''mybucket'' ''summary.pdf''),
      mem_outer\<lparr>remote := remote mem_outer @
        [(''mybucket'', \<lparr>Key = ''summary.pdf'', Size = 0, LastModified = 0\<rparr>)]\<rparr>)"
  by (simp add: upload_file_def call_client_def some_storage_def mem_sdk_def
      basename_example Let_def)

text \<open>
  Claim C5. Whenever \<^verbatim>\<open>upload_file\<close> returns, the first component of its result is the
  basename of the local path if no key was given, that is the final segment of the path:
  it contains no slash and the path is this segment after a prefix that is empty or ends
  in a slash. If a key was given, the first component is that key.
\<close>

theorem upload_default_key_is_basename:
  "upload_file sdk c self local_fpath bucket_name fpath_in_bucket out = (Inr (rk, url), out1) \<Longrightarrow>
     (fpath_in_bucket = None \<longrightarrow>
        rk = basename local_fpath \<and> CHR ''/'' \<notin> set rk \<and>
        (\<exists>h. local_fpath = h @ rk \<and> (h = [] \<or> last h = CHR ''/''))) \<and>
     (\<forall>k. fpath_in_bucket = Some k \<longrightarrow> rk = k)"
proof -
  assume returned:
    "upload_file sdk c self local_fpath bucket_name fpath_in_bucket out = (Inr (rk, url), out1)"
  then have rk: "rk = (case fpath_in_bucket of None \<Rightarrow> basename local_fpath | Some k \<Rightarrow> k)"
    by (auto simp: upload_file_def Let_def split: prod.splits sum.splits)
  have "local_fpath = head_part local_fpath @ basename local_fpath"
    by (simp add: head_part_basename)
  with head_part_ends_sep [of local_fpath]
  have "\<exists>h. local_fpath = h @ basename local_fpath \<and> (h = [] \<or> last h = CHR ''/'')"
    by blast
  with rk basename_no_sep [of local_fpath] show ?thesis
    by (auto split: option.splits)
qed

theorem upload_default_key_witness:
  "upload_file mem_sdk S3Storage some_storage ''reports/2024/summary.pdf'' ''mybucket'' None
     mem_outer =
     (Inr (''summary.pdf'', ''s3://mybucket/summary.pdf''),
      mem_outer\<lparr>remote := remote mem_outer @
        [(''mybucket'', \<lparr>Key = ''summary.pdf'', Size = 0, LastModified = 0\<rparr>)]\<rparr>) \<and>
   ''summary.pdf'' = basename ''reports/2024/summary.pdf''"
proof -
  have returned:
    "upload_file mem_sdk S3Storage some_storage ''reports/2024/summary.pdf'' ''mybucket'' None
       mem_outer =
     (Inr (''summary.pdf'', ''s3://mybucket/summary.pdf''),
      mem_outer\<lparr>remote := remote mem_outer @
        [(''mybucket'', \<lparr>Key = ''summary.pdf'', Size = 0, LastModified = 0\<rparr>)]\<rparr>)"
    by (simp add: upload_example get_storage_url_def)
  from upload_default_key_is_basename [OF returned] returned show ?thesis
    by simp
qed

text \<open>
  Claim C6. The URL of the S3 adapter is \<^verbatim>\<open>s3://\<close>, the bucket, a slash and the key, and the
  URL of the R2 adapter is the same after \<^verbatim>\<open>r2://\<close>, whatever the bucket and the key are;
  the two examples of the specification are instances. Whenever \<^verbatim>\<open>upload_file\<close> returns,
  the second component of its result is this URL for the key returned as first component.
\<close>

theorem storage_url_format:
  "get_storage_url S3Storage bucket_name k = ''s3://'' @ bucket_name @ ''/'' @ k \<and>
   get_storage_url R2Storage bucket_name k = ''r2://'' @ bucket_name @ ''/'' @ k \<and>
   get_storage_url S3Storage ''mybucket'' ''a/b.txt'' = ''s3://mybucket/a/b.txt'' \<and>
   get_storage_url R2Storage ''mybucket'' ''a/b.txt'' = ''r2://mybucket/a/b.txt'' \<and>
   (\<forall>sdk c self local_fpath fpath_in_bucket (out :: 'r outer) rk url out1.
      upload_file sdk c self local_fpath bucket_name fpath_in_bucket out = (Inr (rk, url), out1)
      \<longrightarrow> rk = (case fpath_in_bucket of None \<Rightarrow> basename local_fpath | Some k' \<Rightarrow> k') \<and>
          url = (case c of S3Storage \<Rightarrow> ''s3://'' | R2Storage \<Rightarrow> ''r2://'') @
                bucket_name @ ''/'' @ rk)"
  by (auto simp: get_storage_url_def upload_file_def Let_def
      split: prod.splits sum.splits cls.splits option.splits)

theorem storage_url_witness:
  "upload_file mem_sdk R2Storage some_storage ''reports/2024/summary.pdf'' ''mybucket'' None
     mem_outer =
     (Inr (''summary.pdf'', ''r2://mybucket/summary.pdf''),
      mem_outer\<lparr>remote := remote mem_outer @
        [(''mybucket'', \<lparr>Key = ''summary.pdf'', Size = 0, LastModified = 0\<rparr>)]\<rparr>) \<and>
   ''r2://mybucket/summary.pdf'' = ''r2://'' @ ''mybucket'' @ ''/'' @ ''summary.pdf''"
proof -
  have returned:
    "upload_file mem_sdk R2Storage some_storage ''reports/2024/summary.pdf'' ''mybucket'' None
       mem_outer =
     (Inr (''summary.pdf'', get_storage_url R2Storage ''mybucket'' ''summary.pdf''),
      mem_outer\<lparr>remote := remote mem_outer @
        [(''mybucket'', \<lparr>Key = ''summary.pdf'', Size = 0, LastModified = 0\<rparr>)]\<rparr>)"
    by (rule upload_example)
  from storage_url_format [of "''mybucket''" "''summary.pdf''", where ?'r = mem_remote] returned
  show ?thesis
    by simp
qed

section \<open>Resolved credentials\<close>

lemma instance_of_set_instance: "instance_of c (set_instance c obj w) = Some obj"
  by (cases c) (simp_all add: instance_of_def set_instance_def)

lemma instance_of_set_other: "c' \<noteq> c \<Longrightarrow> instance_of c (set_instance c' obj w) = instance_of c w"
  by (cases c; cases c') (simp_all add: instance_of_def set_instance_def)

lemma instance_after_construct:
  "instance_of c (snd (construct bc c env a w)) = Some (fst (init bc c env (fst (new c w)) a))"
  by (simp add: construct_def instance_of_set_instance split: prod.splits option.splits)

lemma credential_simps:
  "credential self ''access_key'' = access_key self"
  "credential self ''secret_access_key'' = secret_key self"
  "credential self ''account_id'' = account_id self"
  by (simp_all add: credential_def)

lemma s3_init_fields:
  "access_key (fst (s3_init bc env self ak sk rg)) = py_or ak (env ''S3_ACCESS_KEY_ID'')"
  "secret_key (fst (s3_init bc env self ak sk rg)) = py_or sk (env ''S3_SECRET_ACCESS_KEY'')"
  by (simp_all add: s3_init_def Let_def split: option.splits)

lemma r2_init_fields:
  "access_key (fst (r2_init bc env self ak sk ac rg)) = py_or ak (env ''R2_ACCESS_KEY_ID'')"
  "secret_key (fst (r2_init bc env self ak sk ac rg)) = py_or sk (env ''R2_SECRET_ACCESS_KEY'')"
  "account_id (fst (r2_init bc env self ak sk ac rg)) = py_or ac (env ''R2_ACCOUNT_ID'')"
  by (simp_all add: r2_init_def Let_def split: option.splits)

lemma init_credential:
  assumes "f \<in> set (required_fields c)"
  shows "credential (fst (init bc c env self a)) f = py_or (explicit_param a f) (env (env_var_of c f))"
proof (cases c)
  case S3Storage
  with assms have "f = ''access_key'' \<or> f = ''secret_access_key''"
    by (simp add: required_fields_def)
  then show ?thesis
    unfolding S3Storage init_def cls.case
    by (elim disjE; simp only: credential_simps explicit_param_simps env_var_of_simps s3_init_fields)
next
  case R2Storage
  with assms have "f = ''access_key'' \<or> f = ''secret_access_key'' \<or> f = ''account_id''"
    by (simp add: required_fields_def)
  then show ?thesis
    unfolding R2Storage init_def cls.case
    by (elim disjE; simp only: credential_simps explicit_param_simps env_var_of_simps r2_init_fields)
qed

lemma py_or_cases:
  "py_or x y = (case x of None \<Rightarrow> y | Some v \<Rightarrow> if v \<noteq> [] then Some v else y)"
  by (simp add: py_or_def split: option.splits)







section \<open>Configuration errors\<close>

















lemma call_client_Some: "client self = Some cl \<Longrightarrow> call_client self m out = m cl out"
  by (simp add: call_client_def)

lemma except_ClientError_simps:
  "except_ClientError prefix (ClientError m) = PyException (prefix @ m)"
  "except_ClientError prefix (ValueError m) = ValueError m"
  "except_ClientError prefix (OSError oe) = OSError oe"
  "except_ClientError prefix (OtherError n m) = OtherError n m"
  "except_ClientError prefix (PyException m) = PyException m"
  by (simp_all add: except_ClientError_def)

section \<open>Failures of the backend calls\<close>

text \<open>
  Claim C2, as amended. In each of the five operations, whatever exception the call on the
  client raises, the operation raises in its place: for a \<^verbatim>\<open>ClientError\<close> this is an
  \<^verbatim>\<open>Exception\<close> whose message is the prefix of the operation family (\<^verbatim>\<open>Upload failed: \<close>,
  \<^verbatim>\<open>Download failed: \<close>, \<^verbatim>\<open>Listing failed: \<close>, \<^verbatim>\<open>Deletion failed: \<close>,
  \<^verbatim>\<open>Failed to get metadata: \<close>) followed by \<^verbatim>\<open>str(e)\<close>; an exception of any other class is
  not caught and reaches the caller as it is. The state that the failed call leaves
  behind is the state after the operation.
\<close>

theorem client_errors_are_wrapped:
  "client self = Some cl \<Longrightarrow>
   (\<forall>e out1.
      client_upload_file sdk cl local_fpath bucket_name
        (case key_arg of None \<Rightarrow> basename local_fpath | Some k \<Rightarrow> k) out = (Inl e, out1) \<longrightarrow>
      upload_file sdk c self local_fpath bucket_name key_arg out =
        (Inl (case e of ClientError m \<Rightarrow> PyException (''Upload failed: '' @ m) | _ \<Rightarrow> e), out1)) \<and>
   (\<forall>e f1 out1.
      (if dirname (case local_arg of None \<Rightarrow> basename fpath_in_bucket | Some p \<Rightarrow> p) \<noteq> []
       then makedirs (fs out)
              (dirname (case local_arg of None \<Rightarrow> basename fpath_in_bucket | Some p \<Rightarrow> p)) True
       else (None, fs out)) = (None, f1) \<and>
      client_download_file sdk cl bucket_name fpath_in_bucket
        (case local_arg of None \<Rightarrow> basename fpath_in_bucket | Some p \<Rightarrow> p)
        (out\<lparr>fs := f1\<rparr>) = (Inl e, out1) \<longrightarrow>
      download_file sdk self bucket_name fpath_in_bucket local_arg out =
        (Inl (case e of ClientError m \<Rightarrow> PyException (''Download failed: '' @ m) | _ \<Rightarrow> e), out1)) \<and>
   (\<forall>e out1.
      client_list_objects_v2 sdk cl bucket_name (if truthy prefix then prefix else None) out =
        (Inl e, out1) \<longrightarrow>
      list_files sdk self bucket_name prefix out =
        (Inl (case e of ClientError m \<Rightarrow> PyException (''Listing failed: '' @ m) | _ \<Rightarrow> e), out1)) \<and>
   (\<forall>e out1.
      client_delete_object sdk cl bucket_name fpath_in_bucket out = (Inl e, out1) \<longrightarrow>
      delete_file sdk self bucket_name fpath_in_bucket out =
        (Inl (case e of ClientError m \<Rightarrow> PyException (''Deletion failed: '' @ m) | _ \<Rightarrow> e), out1)) \<and>
   (\<forall>e out1.
      client_head_object sdk cl bucket_name fpath_in_bucket out = (Inl e, out1) \<longrightarrow>
      get_file_metadata sdk self bucket_name fpath_in_bucket out =
        (Inl (case e of ClientError m \<Rightarrow> PyException (''Failed to get metadata: '' @ m) | _ \<Rightarrow> e),
         out1))"
proof (intro conjI allI impI)
  fix e out1
  assume "client self = Some cl"
    and "client_upload_file sdk cl local_fpath bucket_name
        (case key_arg of None \<Rightarrow> basename local_fpath | Some k \<Rightarrow> k) out = (Inl e, out1)"
  then show "upload_file sdk c self local_fpath bucket_name key_arg out =
        (Inl (case e of ClientError m \<Rightarrow> PyException (''Upload failed: '' @ m) | _ \<Rightarrow> e), out1)"
    by (simp add: upload_file_def call_client_Some Let_def except_ClientError_def)
next
  fix e f1 out1
  assume "client self = Some cl"
    and "(if dirname (case local_arg of None \<Rightarrow> basename fpath_in_bucket | Some p \<Rightarrow> p) \<noteq> []
       then makedirs (fs out)
              (dirname (case local_arg of None \<Rightarrow> basename fpath_in_bucket | Some p \<Rightarrow> p)) True
       else (None, fs out)) = (None, f1) \<and>
      client_download_file sdk cl bucket_name fpath_in_bucket
        (case local_arg of None \<Rightarrow> basename fpath_in_bucket | Some p \<Rightarrow> p)
        (out\<lparr>fs := f1\<rparr>) = (Inl e, out1)"
  then show "download_file sdk self bucket_name fpath_in_bucket local_arg out =
        (Inl (case e of ClientError m \<Rightarrow> PyException (''Download failed: '' @ m) | _ \<Rightarrow> e), out1)"
    by (simp add: download_file_def call_client_Some Let_def except_ClientError_def)
next
  fix e out1
  assume "client self = Some cl"
    and "client_list_objects_v2 sdk cl bucket_name (if truthy prefix then prefix else None) out =
        (Inl e, out1)"
  then show "list_files sdk self bucket_name prefix out =
        (Inl (case e of ClientError m \<Rightarrow> PyException (''Listing failed: '' @ m) | _ \<Rightarrow> e), out1)"
    by (simp add: list_files_def call_client_Some except_ClientError_def split: if_splits)
next
  fix e out1
  assume "client self = Some cl"
    and "client_delete_object sdk cl bucket_name fpath_in_bucket out = (Inl e, out1)"
  then show "delete_file sdk self bucket_name fpath_in_bucket out =
        (Inl (case e of ClientError m \<Rightarrow> PyException (''Deletion failed: '' @ m) | _ \<Rightarrow> e), out1)"
    by (simp add: delete_file_def call_client_Some except_ClientError_def)
next
  fix e out1
  assume "client self = Some cl"
    and "client_head_object sdk cl bucket_name fpath_in_bucket out = (Inl e, out1)"
  then show "get_file_metadata sdk self bucket_name fpath_in_bucket out =
        (Inl (case e of ClientError m \<Rightarrow> PyException (''Failed to get metadata: '' @ m) | _ \<Rightarrow> e),
         out1)"
    by (simp add: get_file_metadata_def call_client_Some except_ClientError_def)
qed

lemma client_some_storage: "client some_storage = Some some_client"
  by (simp add: some_storage_def)

lemma mem_head_missing:
  "client_head_object mem_sdk some_client ''mybucket'' ''missing.txt'' mem_outer =
     (Inl not_found, mem_outer)"
  by (simp add: mem_sdk_def mem_outer_def objects_in_def)

theorem client_errors_witness:
  "client some_storage = Some some_client \<and>
   client_head_object mem_sdk some_client ''mybucket'' ''missing.txt'' mem_outer =
     (Inl not_found, mem_outer) \<and>
   get_file_metadata mem_sdk some_storage ''mybucket'' ''missing.txt'' mem_outer =
     (Inl (PyException (''Failed to get metadata: '' @
        ''An error occurred (404) when calling the HeadObject operation: Not Found'')), mem_outer)"
  using client_errors_are_wrapped [OF client_some_storage,
      where sdk = mem_sdk and bucket_name = "''mybucket''" and out = mem_outer
        and fpath_in_bucket = "''missing.txt''"]
    mem_head_missing client_some_storage
  by (simp add: not_found_def)

text \<open>
  Claim C2 as stated fails for a backend failure that is not a \<^verbatim>\<open>ClientError\<close>: when the
  endpoint cannot be reached, \<^verbatim>\<open>upload_file\<close> and \<^verbatim>\<open>get_file_metadata\<close> raise botocore's
  \<^verbatim>\<open>EndpointConnectionError\<close> itself, not an \<^verbatim>\<open>Exception\<close> with the prefix of the family.
\<close>

theorem unwrapped_failure_counterexample:
  "upload_file offline_sdk S3Storage some_storage ''a.txt'' ''mybucket'' None offline_outer =
     (Inl (OtherError ''EndpointConnectionError'' ''Could not connect to the endpoint URL''),
      offline_outer) \<and>
   get_file_metadata offline_sdk some_storage ''mybucket'' ''a.txt'' offline_outer =
     (Inl (OtherError ''EndpointConnectionError'' ''Could not connect to the endpoint URL''),
      offline_outer)"
  by (simp add: upload_file_def get_file_metadata_def call_client_def some_storage_def
      offline_sdk_def unreachable_def except_ClientError_def Let_def)

text \<open>
  Claim C3, as amended. \<^verbatim>\<open>file_exists\<close> returns \<^verbatim>\<open>True\<close> when the head-object call returns,
  and \<^verbatim>\<open>False\<close> when that call raises a \<^verbatim>\<open>ClientError\<close>, whatever its cause; an exception
  of any other class is not caught and is raised by \<^verbatim>\<open>file_exists\<close>.
\<close>

theorem file_exists_outcomes:
  "client self = Some cl \<Longrightarrow>
   client_head_object sdk cl bucket_name fpath_in_bucket out = (r, out1) \<Longrightarrow>
   file_exists sdk self bucket_name fpath_in_bucket out =
     ((case r of
         Inr response \<Rightarrow> Inr True
       | Inl (ClientError m) \<Rightarrow> Inr False
       | Inl e \<Rightarrow> Inl e), out1)"
  by (simp add: file_exists_def call_client_Some split: sum.splits exn.splits)

lemma mem_head_present:
  "client_head_object mem_sdk some_client ''mybucket'' ''d.txt'' mem_outer =
     (Inr \<lparr>ContentLength = 5, ContentType = None, HeadLastModified = 12, Metadata = None\<rparr>,
      mem_outer)"
  by (simp add: mem_sdk_def mem_outer_def objects_in_def)

theorem file_exists_witness:
  "file_exists mem_sdk some_storage ''mybucket'' ''d.txt'' mem_outer = (Inr True, mem_outer) \<and>
   file_exists mem_sdk some_storage ''mybucket'' ''missing.txt'' mem_outer = (Inr False, mem_outer)"
  using file_exists_outcomes [OF client_some_storage mem_head_present]
    file_exists_outcomes [OF client_some_storage mem_head_missing]
  by (simp add: not_found_def)

text \<open>
  Claim C3 as stated fails for a transport failure that is not a \<^verbatim>\<open>ClientError\<close>: when the
  endpoint cannot be reached, \<^verbatim>\<open>file_exists\<close> raises instead of returning \<^verbatim>\<open>False\<close>.
\<close>

theorem file_exists_raises_counterexample:
  "file_exists offline_sdk some_storage ''mybucket'' ''a.txt'' offline_outer =
     (Inl (OtherError ''EndpointConnectionError'' ''Could not connect to the endpoint URL''),
      offline_outer)"
  by (simp add: file_exists_def call_client_def some_storage_def offline_sdk_def unreachable_def)

section \<open>Listing\<close>

text \<open>
  Claim C8. With a non-empty prefix, \<^verbatim>\<open>list_files\<close> passes the prefix to the listing call
  of the client. When that call returns, \<^verbatim>\<open>list_files\<close> returns, in the order of the
  response, one entry with key, size and last-modified for each object of the response,
  and the empty list when the response has no contents; so if the backend answers a
  request for a prefix with objects whose keys start with it, every returned entry has a
  key that starts with the prefix. \<^verbatim>\<open>list_files\<close> raises only when the listing call raised.
\<close>

theorem list_files_prefix:
  "client self = Some cl \<Longrightarrow> p \<noteq> [] \<Longrightarrow>
   (\<forall>response out1.
      client_list_objects_v2 sdk cl bucket_name (Some p) out = (Inr response, out1) \<longrightarrow>
      (\<exists>entries.
         list_files sdk self bucket_name (Some p) out = (Inr entries, out1) \<and>
         entries =
           map (\<lambda>obj. \<lparr>key = Key obj, size_in_bytes = Size obj, last_modified = LastModified obj\<rparr>)
             (case Contents response of None \<Rightarrow> [] | Some objs \<Rightarrow> objs) \<and>
         (Contents response = None \<or> Contents response = Some [] \<longrightarrow> entries = []) \<and>
         ((\<forall>objs. Contents response = Some objs \<longrightarrow> (\<forall>obj \<in> set objs. startswith (Key obj) p)) \<longrightarrow>
          (\<forall>e \<in> set entries. startswith (key e) p)))) \<and>
   (\<forall>e out1.
      list_files sdk self bucket_name (Some p) out = (Inl e, out1) \<longrightarrow>
      (\<exists>e'. client_list_objects_v2 sdk cl bucket_name (Some p) out = (Inl e', out1)))"
proof (intro conjI allI impI)
  fix response out1
  assume cl: "client self = Some cl" and p: "p \<noteq> []"
    and ok: "client_list_objects_v2 sdk cl bucket_name (Some p) out = (Inr response, out1)"
  let ?objs = "case Contents response of None \<Rightarrow> [] | Some objs \<Rightarrow> objs"
  let ?entries =
    "map (\<lambda>obj. \<lparr>key = Key obj, size_in_bytes = Size obj, last_modified = LastModified obj\<rparr>)
       ?objs"
  from cl p ok have "list_files sdk self bucket_name (Some p) out = (Inr ?entries, out1)"
    by (simp add: list_files_def call_client_Some entry_of_def)
  moreover have "Contents response = None \<or> Contents response = Some [] \<longrightarrow> ?entries = []"
    by auto
  moreover have "(\<forall>objs. Contents response = Some objs \<longrightarrow>
        (\<forall>obj \<in> set objs. startswith (Key obj) p)) \<longrightarrow>
      (\<forall>e \<in> set ?entries. startswith (key e) p)"
    by (cases "Contents response") auto
  ultimately show "\<exists>entries.
         list_files sdk self bucket_name (Some p) out = (Inr entries, out1) \<and>
         entries =
           map (\<lambda>obj. \<lparr>key = Key obj, size_in_bytes = Size obj, last_modified = LastModified obj\<rparr>)
             (case Contents response of None \<Rightarrow> [] | Some objs \<Rightarrow> objs) \<and>
         (Contents response = None \<or> Contents response = Some [] \<longrightarrow> entries = []) \<and>
         ((\<forall>objs. Contents response = Some objs \<longrightarrow> (\<forall>obj \<in> set objs. startswith (Key obj) p)) \<longrightarrow>
          (\<forall>e \<in> set entries. startswith (key e) p))"
    by blast
next
  fix e out1
  assume cl: "client self = Some cl" and p: "p \<noteq> []"
    and raised: "list_files sdk self bucket_name (Some p) out = (Inl e, out1)"
  then show "\<exists>e'. client_list_objects_v2 sdk cl bucket_name (Some p) out = (Inl e', out1)"
    by (auto simp: list_files_def call_client_Some split: sum.splits prod.splits)
qed

lemma mem_list_prefix:
  "client_list_objects_v2 mem_sdk some_client ''mybucket'' (Some ''a/'') mem_outer =
     (Inr \<lparr>Contents = Some [\<lparr>Key = ''a/b.txt'', Size = 3, LastModified = 10\<rparr>,
                            \<lparr>Key = ''a/c.txt'', Size = 4, LastModified = 11\<rparr>]\<rparr>, mem_outer)"
  by (simp add: mem_sdk_def mem_outer_def objects_in_def startswith_def)

lemma mem_list_no_match:
  "client_list_objects_v2 mem_sdk some_client ''mybucket'' (Some ''zzz-no-match'') mem_outer =
     (Inr \<lparr>Contents = None\<rparr>, mem_outer)"
  by (simp add: mem_sdk_def mem_outer_def objects_in_def startswith_def)

theorem list_files_witness:
  "list_files mem_sdk some_storage ''mybucket'' (Some ''a/'') mem_outer =
     (Inr [\<lparr>key = ''a/b.txt'', size_in_bytes = 3, last_modified = 10\<rparr>,
           \<lparr>key = ''a/c.txt'', size_in_bytes = 4, last_modified = 11\<rparr>], mem_outer) \<and>
   startswith ''a/b.txt'' ''a/'' \<and> startswith ''a/c.txt'' ''a/'' \<and>
   list_files mem_sdk some_storage ''mybucket'' (Some ''zzz-no-match'') mem_outer =
     (Inr [], mem_outer)"
proof -
  have nonempty: "''a/'' \<noteq> []" "''zzz-no-match'' \<noteq> []"
    by simp_all
  from list_files_prefix [OF client_some_storage nonempty(1),
      where sdk = mem_sdk and bucket_name = "''mybucket''" and out = mem_outer]
    list_files_prefix [OF client_some_storage nonempty(2),
      where sdk = mem_sdk and bucket_name = "''mybucket''" and out = mem_outer]
  show ?thesis
    by (simp add: mem_list_prefix mem_list_no_match startswith_def)
qed

lemma construct_first:
  "construct strict_boto3 S3Storage Map.empty first_args initial_world = (Inr S3Storage, one_adapter)"
  by (simp add: construct_def new_def instance_of_def set_instance_def initial_world_def
      init_def s3_init_def s3_kwargs_def strict_boto3_def Let_def py_or_def first_args_def one_adapter_def some_storage_def
      some_client_def fresh_object_def region_or_auto_def)

lemma construct_second:
  "construct strict_boto3 S3Storage Map.empty second_args one_adapter =
     (Inr S3Storage,
      \<lparr>s3_instance = Some
         \<lparr>access_key = Some ''OTHER'', secret_key = Some ''other-secret'', account_id = None,
          client = Some \<lparr>aws_access_key_id = Some ''OTHER'',
                         aws_secret_access_key = Some ''other-secret'',
                         endpoint_url = None, region_name = ''auto''\<rparr>\<rparr>,
       r2_instance = None\<rparr>)"
  by (simp add: construct_def new_def instance_of_def set_instance_def
      init_def s3_init_def s3_kwargs_def strict_boto3_def Let_def py_or_def second_args_def one_adapter_def some_storage_def
      some_client_def region_or_auto_def)

section \<open>The lifetime of an instance\<close>

text \<open>
  Claim C4 as stated fails for a later construction of the same class. After
  \<^verbatim>\<open>S3Storage('AKIA', 'secret')\<close> has returned an adapter, the call
  \<^verbatim>\<open>S3Storage('OTHER', 'other-secret')\<close> runs \<^verbatim>\<open>__init__\<close> on the same object, which then
  holds the second access key and a client built from the second credentials.
\<close>

theorem later_construction_counterexample:
  "construct strict_boto3 S3Storage Map.empty first_args initial_world = (Inr S3Storage, one_adapter) \<and>
   map_option access_key (instance_of S3Storage one_adapter) = Some (Some ''AKIA'') \<and>
   map_option access_key
     (instance_of S3Storage
        (objects (run strict_boto3 offline_sdk [Construct S3Storage Map.empty second_args]
           \<lparr>objects = one_adapter, outside = offline_outer\<rparr>))) = Some (Some ''OTHER'') \<and>
   instance_of S3Storage
     (objects (run strict_boto3 offline_sdk [Construct S3Storage Map.empty second_args]
        \<lparr>objects = one_adapter, outside = offline_outer\<rparr>)) \<noteq> instance_of S3Storage one_adapter"
  by (simp add: construct_first construct_second instance_of_def)
     (simp add: one_adapter_def some_storage_def)

lemma instance_of_new_other: "c' \<noteq> c \<Longrightarrow> instance_of c (snd (new c' w)) = instance_of c w"
  by (simp add: new_def instance_of_set_other split: option.splits)

lemma construct_other_class:
  "c' \<noteq> c \<Longrightarrow> instance_of c (snd (construct bc c' env a w)) = instance_of c w"
  by (auto simp: construct_def instance_of_set_other split: prod.splits option.splits
      dest: arg_cong [where f = snd] simp flip: instance_of_new_other [of c' c w])

lemma objects_on_instance: "objects (on_instance c m s) = objects s"
  by (simp add: on_instance_def split: option.splits)

lemma exec_preserves:
  "\<not> constructs c x \<Longrightarrow> instance_of c (objects (exec bc sdk x s)) = instance_of c (objects s)"
  by (cases x) (simp_all add: objects_on_instance construct_other_class)

lemma run_preserves:
  "\<forall>x \<in> set xs. \<not> constructs c x \<Longrightarrow>
     instance_of c (objects (run bc sdk xs s)) = instance_of c (objects s)"
  by (induction xs arbitrary: s) (simp_all add: exec_preserves)

lemma new_existing: "instance_of c w = Some old \<Longrightarrow> fst (new c w) = old"
  by (simp add: new_def)

text \<open>
  Claim C4, as amended. No sequence of calls of the six operations, on adapters of either
  class, and of constructions of the other class changes the object of a class, its
  credentials and client handle included. A construction returns a reference to the object
  of its own class only. A construction of a class that already has an object, when it
  returns, has initialised that same object again: its required fields hold the values
  resolved from the arguments and the environment of this later call.
\<close>

theorem instance_changes_only_by_reconstruction:
  "((\<forall>x \<in> set xs. \<not> constructs c x) \<longrightarrow>
      instance_of c (objects (run bc sdk xs s)) = instance_of c (objects s)) \<and>
   (\<forall>c'. fst (construct bc c env a w) = Inr c' \<longrightarrow> c' = c) \<and>
   (\<forall>old. instance_of c w = Some old \<and> fst (construct bc c env a w) = Inr c \<longrightarrow>
      instance_of c (snd (construct bc c env a w)) = Some (fst (init bc c env old a)) \<and>
      (\<forall>f \<in> set (required_fields c).
         credential (fst (init bc c env old a)) f =
           (case explicit_param a f of
              None \<Rightarrow> env (env_var_of c f)
            | Some v \<Rightarrow> if v \<noteq> [] then Some v else env (env_var_of c f))))"
proof (intro conjI allI impI ballI)
  assume "\<forall>x \<in> set xs. \<not> constructs c x"
  then show "instance_of c (objects (run bc sdk xs s)) = instance_of c (objects s)"
    by (rule run_preserves)
next
  fix c'
  assume "fst (construct bc c env a w) = Inr c'"
  then show "c' = c"
    by (simp add: fst_construct split: option.splits)
next
  fix old
  assume "instance_of c w = Some old \<and> fst (construct bc c env a w) = Inr c"
  then show "instance_of c (snd (construct bc c env a w)) = Some (fst (init bc c env old a))"
    by (simp add: instance_after_construct new_existing)
next
  fix old f
  assume "f \<in> set (required_fields c)"
  then show "credential (fst (init bc c env old a)) f =
           (case explicit_param a f of
              None \<Rightarrow> env (env_var_of c f)
            | Some v \<Rightarrow> if v \<noteq> [] then Some v else env (env_var_of c f))"
    by (simp add: init_credential py_or_cases)
qed

theorem instance_preserved_witness:
  "filter (constructs S3Storage) mixed_calls = [] \<and>
   instance_of S3Storage
     (objects (run strict_boto3 mem_sdk mixed_calls \<lparr>objects = one_adapter, outside = mem_outer\<rparr>)) =
     Some some_storage \<and>
   fst (construct strict_boto3 S3Storage Map.empty second_args one_adapter) = Inr S3Storage \<and>
   map_option access_key
     (instance_of S3Storage (snd (construct strict_boto3 S3Storage Map.empty second_args one_adapter))) =
     Some (Some ''OTHER'')"
proof -
  have no_ctor: "\<forall>x \<in> set mixed_calls. \<not> constructs S3Storage x"
    by (simp add: mixed_calls_def)
  have old: "instance_of S3Storage one_adapter = Some some_storage"
    by (simp add: instance_of_def one_adapter_def)
  have second:
    "fst (construct strict_boto3 S3Storage Map.empty second_args one_adapter) = Inr S3Storage"
    "map_option access_key
       (instance_of S3Storage (snd (construct strict_boto3 S3Storage Map.empty second_args one_adapter))) =
     Some (Some ''OTHER'')"
    by (simp_all add: construct_second instance_of_def)
  from instance_changes_only_by_reconstruction
    [where xs = mixed_calls and c = S3Storage and sdk = mem_sdk and bc = strict_boto3
      and s = "\<lparr>objects = one_adapter, outside = mem_outer\<rparr>"
      and env = Map.empty and a = second_args and w = one_adapter]
    no_ctor
  have "instance_of S3Storage
     (objects (run strict_boto3 mem_sdk mixed_calls \<lparr>objects = one_adapter, outside = mem_outer\<rparr>)) =
     instance_of S3Storage one_adapter"
    by simp
  moreover from no_ctor have "filter (constructs S3Storage) mixed_calls = []"
    by (simp add: filter_empty_conv)
  ultimately show ?thesis
    using old second by simp
qed

section \<open>Paths, directories and downloads\<close>

lemma splitsep_nonempty: "splitsep s \<noteq> []"
  by (induction s) (auto split: list.splits)

lemma splitsep_no_sep: "CHR ''/'' \<notin> set b \<Longrightarrow> splitsep b = [b]"
  by (induction b) auto

lemma splitsep_append_sep: "splitsep (a @ CHR ''/'' # b) = splitsep a @ splitsep b"
proof (induction a)
  case Nil
  then show ?case by simp
next
  case (Cons c a)
  then show ?case
    using splitsep_nonempty [of a] by (cases "splitsep a") auto
qed

lemma rstrip_sep_snoc:
  "rstrip_sep (s @ [c]) = (if c = CHR ''/'' then rstrip_sep s else s @ [c])"
  by (simp add: rstrip_sep_def)

lemma head_part_cases: "head_part p = [] \<or> (\<exists>h. head_part p = h @ ''/'')"
proof (cases "dropWhile (\<lambda>c. c \<noteq> CHR ''/'') (rev p)")
  case Nil
  then show ?thesis by (simp add: head_part_def)
next
  case (Cons x xs)
  then have "x = CHR ''/''"
    using hd_dropWhile [of "\<lambda>c. c \<noteq> CHR ''/''" "rev p"] by force
  with Cons show ?thesis by (simp add: head_part_def)
qed

lemma is_abs_prefix: "a \<noteq> [] \<Longrightarrow> is_abs (a @ b) = is_abs a"
  by (cases a) (simp_all add: is_abs_def)

lemma dirname_Nil: "dirname [] = []"
  by (simp add: dirname_def head_part_def)

lemma head_part_no_sep: "CHR ''/'' \<notin> set p \<Longrightarrow> head_part p = []"
proof -
  assume "CHR ''/'' \<notin> set p"
  then have "\<forall>c \<in> set (rev p). c \<noteq> CHR ''/''"
    by auto
  then have "dropWhile (\<lambda>c. c \<noteq> CHR ''/'') (rev p) = []"
    by (simp add: dropWhile_eq_Nil_conv)
  then show ?thesis
    by (simp add: head_part_def)
qed

lemma dirname_basename: "dirname (basename k) = []"
  using head_part_no_sep [OF basename_no_sep, of k] by (simp add: dirname_def)

lemma splitsep_snoc_sep: "splitsep (s @ ''/'') = splitsep s @ ['''']"
  using splitsep_append_sep [of s "[]"] by simp

lemma splitsep_slashes: "splitsep (s @ replicate j CHR ''/'') = splitsep s @ replicate j []"
proof (induction j)
  case 0
  then show ?case by simp
next
  case (Suc j)
  have "splitsep (s @ replicate (Suc j) CHR ''/'') = splitsep ((s @ replicate j CHR ''/'') @ ''/'')"
    by (simp add: replicate_append_same)
  also have "\<dots> = splitsep (s @ replicate j CHR ''/'') @ ['''']"
    by (rule splitsep_snoc_sep)
  also have "\<dots> = splitsep s @ replicate (Suc j) []"
    by (simp add: Suc replicate_append_same)
  finally show ?case .
qed

lemma splitsep_only_slashes: "splitsep (replicate j CHR ''/'') = replicate (Suc j) []"
  using splitsep_slashes [of "[]" j] by simp

lemma rstrip_sep_slashes: "\<exists>j. s = rstrip_sep s @ replicate j CHR ''/''"
proof (induction s rule: rev_induct)
  case Nil
  then show ?case by (simp add: rstrip_sep_def)
next
  case (snoc c s)
  show ?case
  proof (cases "c = CHR ''/''")
    case True
    from snoc obtain j where j: "s = rstrip_sep s @ replicate j CHR ''/''" ..
    have "s @ ''/'' = (rstrip_sep s @ replicate j CHR ''/'') @ ''/''"
      by (rule arg_cong [OF j, of "\<lambda>x. x @ ''/''"])
    also have "\<dots> = rstrip_sep s @ replicate (Suc j) CHR ''/''"
      by (simp add: replicate_append_same)
    finally have eq: "s @ ''/'' = rstrip_sep s @ replicate (Suc j) CHR ''/''" .
    have r: "rstrip_sep (s @ ''/'') = rstrip_sep s"
      by (simp add: rstrip_sep_snoc)
    have "s @ ''/'' = rstrip_sep (s @ ''/'') @ replicate (Suc j) CHR ''/''"
      unfolding r by (rule eq)
    then show ?thesis
      unfolding True by (rule exI)
  next
    case False
    then have "s @ [c] = rstrip_sep (s @ [c]) @ replicate 0 CHR ''/''"
      by (simp add: rstrip_sep_snoc)
    then show ?thesis ..
  qed
qed

lemma rstrip_sep_last: "rstrip_sep s \<noteq> [] \<Longrightarrow> last (rstrip_sep s) \<noteq> CHR ''/''"
proof (induction s rule: rev_induct)
  case Nil
  then show ?case by (simp add: rstrip_sep_def)
next
  case (snoc c s)
  then show ?case
    by (cases "c = CHR ''/''") (simp_all add: rstrip_sep_snoc)
qed

lemma rstrip_sep_Nil_iff: "rstrip_sep s = [] \<longleftrightarrow> s = replicate (length s) CHR ''/''"
proof (induction s rule: rev_induct)
  case Nil
  then show ?case by (simp add: rstrip_sep_def)
next
  case (snoc c s)
  show ?case
  proof (cases "c = CHR ''/''")
    case True
    then show ?thesis
      using snoc by (simp add: rstrip_sep_snoc replicate_append_same [symmetric])
  next
    case False
    have "s @ [c] \<noteq> replicate (length (s @ [c])) CHR ''/''"
    proof
      assume "s @ [c] = replicate (length (s @ [c])) CHR ''/''"
      then have "last (s @ [c]) = last (replicate (length (s @ [c])) CHR ''/'')"
        by (rule arg_cong)
      moreover have "last (replicate (length (s @ [c])) CHR ''/'') = CHR ''/''"
        by (rule last_replicate) simp
      ultimately have "last (s @ [c]) = CHR ''/''"
        by (rule trans)
      with False show False by simp
    qed
    with False show ?thesis
      by (simp add: rstrip_sep_snoc)
  qed
qed

lemma basename_Nil_iff: "basename p = [] \<longleftrightarrow> p = [] \<or> last p = CHR ''/''"
proof (cases "rev p")
  case Nil
  then show ?thesis by (simp add: basename_def)
next
  case (Cons x xs)
  then have "p = rev (x # xs)"
    by (simp add: rev_swap)
  then show ?thesis
    by (simp add: basename_def)
qed

lemma basename_Nil_head: "basename p = [] \<Longrightarrow> head_part p = p"
  using head_part_basename [of p] by simp

lemma is_abs_slashes: "s \<noteq> [] \<Longrightarrow> s = replicate (length s) CHR ''/'' \<Longrightarrow> is_abs s"
  by (cases s) (auto simp: is_abs_def)

lemma parse_plain:
  assumes "basename n \<noteq> []"
  shows "\<exists>pre. splitsep n = pre @ [basename n] \<and>
     (dirname n = [] \<and> pre = [] \<and> \<not> is_abs n \<or>
      dirname n \<noteq> [] \<and> is_abs (dirname n) = is_abs n \<and>
        ((\<exists>i. pre = splitsep (dirname n) @ replicate i []) \<or>
         (is_abs n \<and> (\<exists>a b. pre = replicate a [] \<and> splitsep (dirname n) = replicate b []))))"
proof -
  from head_part_cases [of n] show ?thesis
  proof
    assume h: "head_part n = []"
    with head_part_basename [of n] have n: "n = basename n"
      by simp
    then have "CHR ''/'' \<notin> set n"
      using basename_no_sep [of n] by simp
    then have sn: "splitsep n = [n]" and "\<not> is_abs n"
      by (simp add: splitsep_no_sep, cases n, auto simp: is_abs_def)
    from sn n have s: "splitsep n = [] @ [basename n]"
      by simp
    note s \<open>\<not> is_abs n\<close>
    moreover from h have "dirname n = []"
      by (simp add: dirname_def)
    ultimately show ?thesis
      by blast
  next
    assume "\<exists>h. head_part n = h @ ''/''"
    then obtain h where h: "head_part n = h @ ''/''" ..
    with head_part_basename [of n] have n: "n = h @ CHR ''/'' # basename n"
      by simp
    have "splitsep n = splitsep h @ splitsep (basename n)"
      using arg_cong [OF n, of splitsep] by (simp only: splitsep_append_sep)
    then have s: "splitsep n = splitsep h @ [basename n]"
      by (simp add: splitsep_no_sep basename_no_sep)
    have "is_abs (head_part n @ basename n) = is_abs (head_part n)"
      using h by (intro is_abs_prefix) simp
    then have abs_hp: "is_abs n = is_abs (head_part n)"
      unfolding head_part_basename .
    show ?thesis
    proof (cases "head_part n = replicate (length (head_part n)) CHR ''/''")
      case True
      with h have d: "dirname n = head_part n"
        by (simp add: dirname_def Let_def)
      from True h have "h @ ''/'' = replicate (length h) CHR ''/'' @ ''/''"
        by (simp add: replicate_append_same)
      then have hs: "h = replicate (length h) CHR ''/''"
        by simp
      have e1: "splitsep h = replicate (Suc (length h)) []"
        using splitsep_only_slashes [of "length h"] hs by simp
      have e2: "splitsep (dirname n) = replicate (Suc (length (head_part n))) []"
        using splitsep_only_slashes [of "length (head_part n)"] True d by simp
      have e3: "is_abs n"
        using abs_hp is_abs_slashes [OF _ True] h by simp
      have e4: "dirname n \<noteq> []"
        using d h by simp
      have e5: "is_abs (dirname n) = is_abs n"
        using d abs_hp by simp
      have "\<exists>a b. splitsep h = replicate a [] \<and> splitsep (dirname n) = replicate b []"
        by (intro exI conjI) (rule e1, rule e2)
      with e3 e4 e5 have "dirname n \<noteq> [] \<and> is_abs (dirname n) = is_abs n \<and>
        ((\<exists>i. splitsep h = splitsep (dirname n) @ replicate i []) \<or>
         (is_abs n \<and> (\<exists>a b. splitsep h = replicate a [] \<and> splitsep (dirname n) = replicate b [])))"
        by simp
      with s show ?thesis
        by (intro exI [of _ "splitsep h"]) simp
    next
      case False
      with h have d: "dirname n = rstrip_sep h"
        by (simp add: dirname_def Let_def rstrip_sep_snoc)
      from False h have d': "dirname n = rstrip_sep (head_part n)"
        by (simp add: dirname_def Let_def)
      from False have nonempty: "dirname n \<noteq> []"
        unfolding d' by (simp add: rstrip_sep_Nil_iff)
      obtain i where "h = rstrip_sep h @ replicate i CHR ''/''"
        using rstrip_sep_slashes by blast
      then have hd: "h = dirname n @ replicate i CHR ''/''"
        by (simp add: d)
      have "splitsep h = splitsep (dirname n) @ replicate i []"
        using arg_cong [OF hd, of splitsep] by (simp only: splitsep_slashes)
      then have e1: "\<exists>i. splitsep h = splitsep (dirname n) @ replicate i []" ..
      have e5: "is_abs (dirname n) = is_abs n"
      proof -
        have "is_abs n = is_abs (h @ CHR ''/'' # basename n)"
          by (rule arg_cong [OF n])
        also have "\<dots> = is_abs ((dirname n @ replicate i CHR ''/'') @ CHR ''/'' # basename n)"
          by (rule arg_cong [OF hd, of "\<lambda>x. is_abs (x @ CHR ''/'' # basename n)"])
        also have "\<dots> = is_abs (dirname n @ (replicate i CHR ''/'' @ CHR ''/'' # basename n))"
          by (simp only: append_assoc)
        also have "\<dots> = is_abs (dirname n)"
          using nonempty by (rule is_abs_prefix)
        finally show ?thesis ..
      qed
      from e1 e5 nonempty have "dirname n \<noteq> [] \<and> is_abs (dirname n) = is_abs n \<and>
        ((\<exists>i. splitsep h = splitsep (dirname n) @ replicate i []) \<or>
         (is_abs n \<and> (\<exists>a b. splitsep h = replicate a [] \<and> splitsep (dirname n) = replicate b [])))"
        by simp
      with s show ?thesis
        by (intro exI [of _ "splitsep h"]) simp
    qed
  qed
qed

lemma split_parse:
  assumes ht: "(head, tail) = (if basename name = [] then split (dirname name) else split name)"
    and nonempty: "name \<noteq> []"
  shows "(tail = [] \<and> is_abs name \<and> (\<exists>m. splitsep name = replicate m [])) \<or>
         (tail \<noteq> [] \<and> (\<exists>pre j. splitsep name = pre @ [tail] @ replicate j [] \<and>
             (head = [] \<and> pre = [] \<and> \<not> is_abs name \<or>
              head \<noteq> [] \<and> is_abs head = is_abs name \<and>
                ((\<exists>i. pre = splitsep head @ replicate i []) \<or>
                 (is_abs name \<and> (\<exists>a b. pre = replicate a [] \<and> splitsep head = replicate b []))))))"
proof (cases "basename name = []")
  case False
  with ht have h: "head = dirname name" "tail = basename name"
    by (simp_all add: split_def)
  from parse_plain [OF False] obtain pre where
    pre: "splitsep name = pre @ [basename name] \<and>
     (dirname name = [] \<and> pre = [] \<and> \<not> is_abs name \<or>
      dirname name \<noteq> [] \<and> is_abs (dirname name) = is_abs name \<and>
        ((\<exists>i. pre = splitsep (dirname name) @ replicate i []) \<or>
         (is_abs name \<and> (\<exists>a b. pre = replicate a [] \<and> splitsep (dirname name) = replicate b []))))" ..
  then have "splitsep name = pre @ [tail] @ replicate 0 [] \<and>
             (head = [] \<and> pre = [] \<and> \<not> is_abs name \<or>
              head \<noteq> [] \<and> is_abs head = is_abs name \<and>
                ((\<exists>i. pre = splitsep head @ replicate i []) \<or>
                 (is_abs name \<and> (\<exists>a b. pre = replicate a [] \<and> splitsep head = replicate b []))))"
    unfolding h by simp
  then have "\<exists>pre j. splitsep name = pre @ [tail] @ replicate j [] \<and>
             (head = [] \<and> pre = [] \<and> \<not> is_abs name \<or>
              head \<noteq> [] \<and> is_abs head = is_abs name \<and>
                ((\<exists>i. pre = splitsep head @ replicate i []) \<or>
                 (is_abs name \<and> (\<exists>a b. pre = replicate a [] \<and> splitsep head = replicate b []))))"
    by (intro exI)
  with False h show ?thesis
    by simp
next
  case True
  then have hp: "head_part name = name"
    by (rule basename_Nil_head)
  show ?thesis
  proof (cases "name = replicate (length name) CHR ''/''")
    case slashes: True
    with hp have "dirname name = name"
      by (simp add: dirname_def Let_def)
    with True ht have "tail = []"
      by (simp add: split_def)
    moreover have "is_abs name"
      using nonempty slashes by (rule is_abs_slashes)
    moreover have "splitsep name = replicate (Suc (length name)) []"
      using splitsep_only_slashes [of "length name"] slashes by simp
    ultimately show ?thesis
      by blast
  next
    case False
    let ?n = "rstrip_sep name"
    from False hp nonempty have d: "dirname name = ?n"
      by (simp add: dirname_def Let_def)
    from False have n1: "?n \<noteq> []"
      by (simp add: rstrip_sep_Nil_iff)
    then have "last ?n \<noteq> CHR ''/''"
      by (rule rstrip_sep_last)
    with n1 have base: "basename ?n \<noteq> []"
      by (simp add: basename_Nil_iff)
    from True ht d have h: "head = dirname ?n" "tail = basename ?n"
      by (simp_all add: split_def)
    obtain j where j: "name = ?n @ replicate j CHR ''/''"
      using rstrip_sep_slashes by blast
    have sj: "splitsep name = splitsep ?n @ replicate j []"
      using arg_cong [OF j, of splitsep] by (simp only: splitsep_slashes)
    have "is_abs name = is_abs (?n @ replicate j CHR ''/'')"
      by (rule arg_cong [OF j])
    also have "\<dots> = is_abs ?n"
      using n1 by (rule is_abs_prefix)
    finally have ab: "is_abs ?n = is_abs name" ..
    from parse_plain [OF base] obtain pre where
      pre: "splitsep ?n = pre @ [basename ?n] \<and>
       (dirname ?n = [] \<and> pre = [] \<and> \<not> is_abs ?n \<or>
        dirname ?n \<noteq> [] \<and> is_abs (dirname ?n) = is_abs ?n \<and>
          ((\<exists>i. pre = splitsep (dirname ?n) @ replicate i []) \<or>
           (is_abs ?n \<and> (\<exists>a b. pre = replicate a [] \<and> splitsep (dirname ?n) = replicate b []))))" ..
    then have "splitsep name = pre @ [tail] @ replicate j [] \<and>
             (head = [] \<and> pre = [] \<and> \<not> is_abs name \<or>
              head \<noteq> [] \<and> is_abs head = is_abs name \<and>
                ((\<exists>i. pre = splitsep head @ replicate i []) \<or>
                 (is_abs name \<and> (\<exists>a b. pre = replicate a [] \<and> splitsep head = replicate b []))))"
      unfolding h sj ab by simp
    then have "\<exists>pre j. splitsep name = pre @ [tail] @ replicate j [] \<and>
             (head = [] \<and> pre = [] \<and> \<not> is_abs name \<or>
              head \<noteq> [] \<and> is_abs head = is_abs name \<and>
                ((\<exists>i. pre = splitsep head @ replicate i []) \<or>
                 (is_abs name \<and> (\<exists>a b. pre = replicate a [] \<and> splitsep head = replicate b []))))"
      by (intro exI)
    with base h show ?thesis
      by simp
  qed
qed

lemma step_empty: "step cur [] = cur"
  by (simp add: step_def)

lemma walk_append:
  "walk f cur (xs @ ys) = (case walk f cur xs of Inl e \<Rightarrow> Inl e | Inr k \<Rightarrow> walk f k ys)"
  by (induction xs arbitrary: cur) (simp_all split: option.splits node.splits)

lemma walk_check:
  "walk f k [''''] =
     (case node_at f k of
        None \<Rightarrow> Inl FileNotFoundError
      | Some File \<Rightarrow> Inl NotADirectoryError
      | Some Dir \<Rightarrow> Inr k)"
  by (simp add: step_empty split: option.splits node.splits)

lemma walk_empties_check: "walk f k (replicate i [] @ ['''']) = walk f k ['''']"
  by (induction i) (simp_all add: step_empty split: option.splits node.splits)

lemma walk_empties: "walk f cur (xs @ replicate i [] @ ['''']) = walk f cur (xs @ [''''])"
  unfolding walk_append [of f cur xs] walk_empties_check ..

lemma walk_root_empties: "walk f [] (replicate n []) = Inr []"
  by (induction n) (simp_all add: node_at_def step_empty)

lemma walk_dir_end:
  "walk f cur (cs @ ['''']) = Inr k \<longleftrightarrow> walk f cur cs = Inr k \<and> node_at f k = Some Dir"
  unfolding walk_append walk_check
  by (auto split: sum.splits option.splits node.splits)

lemma walk_snoc:
  "walk f cur (cs @ [c]) =
     (case walk f cur (cs @ ['''']) of Inl e \<Rightarrow> Inl e | Inr k \<Rightarrow> Inr (step k c))"
  unfolding walk_append
  by (simp add: step_empty split: sum.splits option.splits node.splits)

lemma walk_foldl: "walk f cur cs = Inr k \<Longrightarrow> k = foldl step cur cs"
  by (induction cs arbitrary: cur) (auto split: option.splits node.splits)

lemma trail_start: "cur \<in> set (trail cur cs)"
  by (cases cs) simp_all

lemma trail_end: "foldl step cur cs \<in> set (trail cur cs)"
  by (induction cs arbitrary: cur) auto

lemma trail_append:
  "set (trail cur (xs @ ys)) = set (trail cur xs) \<union> set (trail (foldl step cur xs) ys)"
  using trail_start by (induction xs arbitrary: cur) auto

lemma foldl_empties: "foldl step cur (replicate i []) = cur"
  by (induction i) (simp_all add: step_empty)

lemma trail_empties: "set (trail cur (replicate i [])) = {cur}"
  by (induction i) (simp_all add: step_empty)

lemma walk_mono:
  assumes "\<And>k. node_at f k = Some Dir \<Longrightarrow> node_at g k = Some Dir"
  shows "walk f cur cs = Inr k \<Longrightarrow> walk g cur cs = Inr k"
  using assms by (induction cs arbitrary: cur) (auto split: option.splits node.splits)

lemma isdir_walk:
  "p \<noteq> [] \<Longrightarrow> isdir f p \<longleftrightarrow> (\<exists>k. walk f (start f p) (splitsep p @ ['''']) = Inr k)"
  unfolding isdir_def lookup_def walk_dir_end
  by (auto split: sum.splits)

lemma strip_empty_parsed:
  "tail \<noteq> [] \<Longrightarrow> strip_empty (pre @ [tail] @ replicate j []) = pre @ [tail]"
  by (simp add: strip_empty_def dropWhile_append)

lemma strip_empty_empties: "strip_empty (replicate m []) = []"
  by (simp add: strip_empty_def)

lemma parsed_nonempty:
  assumes "splitsep name = pre @ [tail] @ replicate j []" and "tail \<noteq> []"
  shows "name \<noteq> []"
proof
  assume "name = []"
  with assms(1) have "pre @ [tail] @ replicate j [] = [] # []"
    by simp
  then have "set (pre @ [tail] @ replicate j []) = set ([] # [])"
    by (rule arg_cong)
  with assms(2) show False
    by auto
qed

lemma mkdir_parsed:
  assumes "splitsep name = pre @ [tail] @ replicate j []" and "tail \<noteq> []"
  shows "mkdir f name =
     (case walk f (start f name) (pre @ ['''']) of
        Inl e \<Rightarrow> (Some e, f)
      | Inr par \<Rightarrow>
          if tail = ''.'' \<or> tail = ''..'' \<or> node_at f (par @ [tail]) \<noteq> None
          then (Some FileExistsError, f)
          else (None, f\<lparr>nodes := (nodes f)(par @ [tail] \<mapsto> Dir)\<rparr>))"
proof -
  have ne: "name \<noteq> []"
    using assms by (rule parsed_nonempty)
  have cs: "strip_empty (splitsep name) = pre @ [tail]"
    unfolding assms(1) using assms(2) by (rule strip_empty_parsed)
  have w: "walk f (start f name) (pre @ ['''']) =
      (case walk f (start f name) pre of
         Inl e \<Rightarrow> Inl e
       | Inr par \<Rightarrow>
           (case node_at f par of
              None \<Rightarrow> Inl FileNotFoundError
            | Some File \<Rightarrow> Inl NotADirectoryError
            | Some Dir \<Rightarrow> Inr par))"
    unfolding walk_append walk_check ..
  show ?thesis
    unfolding mkdir_def cs w Let_def using ne
    by (auto split: sum.splits option.splits node.splits)
qed

lemma isdir_parsed:
  assumes "splitsep name = pre @ [tail] @ replicate j []" and "tail \<noteq> []"
  shows "isdir f name \<longleftrightarrow>
     (\<exists>par. walk f (start f name) (pre @ ['''']) = Inr par \<and> node_at f (step par tail) = Some Dir)"
proof -
  have "walk f (start f name) (splitsep name @ ['''']) =
      walk f (start f name) ((pre @ [tail]) @ replicate j [] @ [''''])"
    unfolding assms(1) by simp
  also have "\<dots> = walk f (start f name) ((pre @ [tail]) @ [''''])"
    by (rule walk_empties)
  finally have "isdir f name \<longleftrightarrow> (\<exists>k. walk f (start f name) ((pre @ [tail]) @ ['''']) = Inr k)"
    using isdir_walk [OF parsed_nonempty [OF assms], of f] by simp
  also have "\<dots> \<longleftrightarrow> (\<exists>k. walk f (start f name) (pre @ [tail]) = Inr k \<and>
      node_at f k = Some Dir)"
    by (simp only: walk_dir_end)
  also have "\<dots> \<longleftrightarrow> (\<exists>par. walk f (start f name) (pre @ ['''']) = Inr par \<and>
      node_at f (step par tail) = Some Dir)"
    by (cases "walk f (start f name) (pre @ [''''])") (simp_all add: walk_snoc [of f _ pre tail])
  finally show ?thesis .
qed

lemma start_cwd: "cwd g = cwd f \<Longrightarrow> start g p = start f p"
  by (simp add: start_def)

lemma start_abs: "is_abs p = is_abs q \<Longrightarrow> start f p = start f q"
  by (simp add: start_def)

lemma split_walk:
  assumes ht: "(head, tail) = (if basename name = [] then split (dirname name) else split name)"
    and nonempty: "name \<noteq> []" and tail: "tail \<noteq> []"
  obtains pre j where
    "splitsep name = pre @ [tail] @ replicate j []"
    "head = [] \<Longrightarrow> pre = [] \<and> \<not> is_abs name"
    "head \<noteq> [] \<Longrightarrow> is_abs head = is_abs name"
    "\<And>f. head \<noteq> [] \<Longrightarrow>
       walk f (start f name) (pre @ ['''']) = walk f (start f head) (splitsep head @ [''''])"
    "\<And>f. head \<noteq> [] \<Longrightarrow>
       set (trail (start f head) (splitsep head)) = set (trail (start f name) pre)"
proof -
  from split_parse [OF ht nonempty] tail obtain pre j where
    s: "splitsep name = pre @ [tail] @ replicate j []"
    and c: "head = [] \<and> pre = [] \<and> \<not> is_abs name \<or>
              head \<noteq> [] \<and> is_abs head = is_abs name \<and>
                ((\<exists>i. pre = splitsep head @ replicate i []) \<or>
                 (is_abs name \<and> (\<exists>a b. pre = replicate a [] \<and> splitsep head = replicate b [])))"
    by blast
  have 1: "pre = [] \<and> \<not> is_abs name" if "head = []"
    using c that by blast
  have 2: "is_abs head = is_abs name" if "head \<noteq> []"
    using c that by blast
  have 34: "walk f (start f name) (pre @ ['''']) = walk f (start f head) (splitsep head @ ['''']) \<and>
      set (trail (start f head) (splitsep head)) = set (trail (start f name) pre)"
    if h: "head \<noteq> []" for f
  proof -
    have st: "start f head = start f name"
      using 2 [OF h] by (rule start_abs)
    from c h consider
        i where "pre = splitsep head @ replicate i []"
      | a b where "is_abs name" "pre = replicate a []" "splitsep head = replicate b []"
      by blast
    then show ?thesis
    proof cases
      case 1
      have "walk f (start f name) (pre @ ['''']) =
          walk f (start f name) (splitsep head @ replicate i [] @ [''''])"
        unfolding 1 by simp
      also have "\<dots> = walk f (start f name) (splitsep head @ [''''])"
        by (rule walk_empties)
      finally have "walk f (start f name) (pre @ ['''']) =
          walk f (start f head) (splitsep head @ [''''])"
        unfolding st .
      moreover have "set (trail (start f name) pre) = set (trail (start f name) (splitsep head))"
        unfolding 1 trail_append trail_empties using trail_end [of "start f name" "splitsep head"]
        by auto
      ultimately show ?thesis
        unfolding st by simp
    next
      case 2
      from 2(1) have root: "start f name = []"
        by (simp add: start_def)
      have "walk f [] (pre @ ['''']) = walk f [] (splitsep head @ [''''])"
        unfolding 2 walk_empties_check ..
      moreover have "set (trail [] (splitsep head)) = set (trail [] pre)"
        unfolding 2 trail_empties ..
      ultimately show ?thesis
        unfolding st root by simp
    qed
  qed
  show thesis
    using that [of pre j] s 1 2 34 by blast
qed

lemma strip_empty_decomp: "\<exists>j. cs = strip_empty cs @ replicate j []"
proof -
  let ?t = "takeWhile (\<lambda>c. c = []) (rev cs)"
  have "\<forall>y \<in> set (rev ?t). y = []"
    using set_takeWhileD [of _ "\<lambda>c. c = []" "rev cs"] by auto
  then have t: "replicate (length (rev ?t)) [] = rev ?t"
    by (rule replicate_length_same)
  have "cs = rev (dropWhile (\<lambda>c. c = []) (rev cs)) @ rev ?t"
    by (metis rev_append rev_rev_ident takeWhile_dropWhile_id)
  then have "cs = strip_empty cs @ replicate (length (rev ?t)) []"
    unfolding t strip_empty_def .
  then show ?thesis ..
qed

lemma strip_empty_last: "strip_empty cs \<noteq> [] \<Longrightarrow> last (strip_empty cs) \<noteq> []"
  unfolding strip_empty_def
  using hd_dropWhile [of "\<lambda>c. c = []" "rev cs"] by (simp add: last_rev)

lemma step_name: "t \<noteq> [] \<Longrightarrow> t \<noteq> ''.'' \<Longrightarrow> t \<noteq> ''..'' \<Longrightarrow> step par t = par @ [t]"
  by (simp add: step_def)

lemma node_at_nonroot: "node_at f (par @ [t]) = nodes f (par @ [t])"
  by (simp add: node_at_def)

lemma mkdir_cases:
  assumes "mkdir f name = (r, f')"
  shows "(r \<noteq> None \<and> f' = f) \<or>
    (r = None \<and> (\<exists>par t. f' = f\<lparr>nodes := (nodes f)(par @ [t] \<mapsto> Dir)\<rparr> \<and>
       node_at f par = Some Dir \<and> nodes f (par @ [t]) = None \<and>
       par @ [t] \<in> set (trail (start f name) (splitsep name))))"
proof (cases r)
  case (Some e)
  with assms have "f' = f"
    by (auto simp: mkdir_def Let_def split: if_splits sum.splits option.splits node.splits)
  with Some show ?thesis by simp
next
  case None
  let ?cs = "strip_empty (splitsep name)"
  let ?s = "start f name"
  from None assms obtain par where
    cs: "?cs \<noteq> []" and w: "walk f ?s (butlast ?cs) = Inr par" and d: "node_at f par = Some Dir"
    and t: "last ?cs \<noteq> ''.''" "last ?cs \<noteq> ''..''" and n: "node_at f (par @ [last ?cs]) = None"
    and f': "f' = f\<lparr>nodes := (nodes f)(par @ [last ?cs] \<mapsto> Dir)\<rparr>"
    by (auto simp: mkdir_def Let_def split: if_splits sum.splits option.splits node.splits)
  from cs have t0: "last ?cs \<noteq> []"
    by (rule strip_empty_last)
  have "par = foldl step ?s (butlast ?cs)"
    using w by (rule walk_foldl)
  then have "par @ [last ?cs] = foldl step ?s (butlast ?cs @ [last ?cs])"
    using step_name [OF t0 t] by simp
  also have "\<dots> = foldl step ?s ?cs"
    using cs by simp
  finally have "par @ [last ?cs] \<in> set (trail ?s ?cs)"
    using trail_end [of ?s ?cs] by simp
  moreover obtain j where "splitsep name = ?cs @ replicate j []"
    using strip_empty_decomp by blast
  ultimately have "par @ [last ?cs] \<in> set (trail ?s (splitsep name))"
    using trail_append [of ?s ?cs "replicate j []"] by simp
  with None d n f' show ?thesis
    unfolding node_at_nonroot by blast
qed

lemma mkdir_leaf_cases:
  assumes "mkdir_leaf f name eo = (r, f')"
  shows "f' = f \<or>
    (r = None \<and> (\<exists>par t. f' = f\<lparr>nodes := (nodes f)(par @ [t] \<mapsto> Dir)\<rparr> \<and>
       node_at f par = Some Dir \<and> nodes f (par @ [t]) = None \<and>
       par @ [t] \<in> set (trail (start f name) (splitsep name))))"
proof -
  obtain r0 f0 where m: "mkdir f name = (r0, f0)"
    by (cases "mkdir f name")
  from mkdir_cases [OF m] show ?thesis
  proof
    assume "r0 \<noteq> None \<and> f0 = f"
    with assms m have "f' = f"
      by (auto simp: mkdir_leaf_def split: if_splits)
    then show ?thesis ..
  next
    assume new: "r0 = None \<and> (\<exists>par t. f0 = f\<lparr>nodes := (nodes f)(par @ [t] \<mapsto> Dir)\<rparr> \<and>
       node_at f par = Some Dir \<and> nodes f (par @ [t]) = None \<and>
       par @ [t] \<in> set (trail (start f name) (splitsep name)))"
    with assms m have "r = None" "f' = f0"
      by (simp_all add: mkdir_leaf_def)
    with new show ?thesis
      by blast
  qed
qed

lemma split_choice_ex:
  "\<exists>head tail. (head, tail) = (if basename name = [] then split (dirname name) else split name)"
  by (metis surj_pair)

lemma split_choice_Nil:
  "(head, tail) = (if basename [] = [] then split (dirname []) else split []) \<Longrightarrow> head = []"
  by (simp add: split_def dirname_Nil basename_def)

lemma makedirs_no_rec:
  assumes "(head, tail) = (if basename name = [] then split (dirname name) else split name)"
    and "\<not> (head \<noteq> [] \<and> tail \<noteq> [] \<and> \<not> exists f head)"
  shows "makedirs f name eo = mkdir_leaf f name eo"
  using assms(2) unfolding makedirs.simps [of f name eo] assms(1) [symmetric]
  by auto

lemma makedirs_rec:
  assumes "(head, tail) = (if basename name = [] then split (dirname name) else split name)"
    and "head \<noteq> [] \<and> tail \<noteq> [] \<and> \<not> exists f head"
    and "makedirs f head eo = (r1, f1)"
    and "makedirs f name eo = (r, f')"
  shows "(f' = f1 \<and> (r = r1 \<and> r1 \<noteq> None \<and> r1 \<noteq> Some FileExistsError \<or>
                     r = None \<and> tail = ''.'' \<and> (r1 = None \<or> r1 = Some FileExistsError))) \<or>
         (tail \<noteq> ''.'' \<and> (r1 = None \<or> r1 = Some FileExistsError) \<and>
          mkdir_leaf f1 name eo = (r, f'))"
  using assms(2,3,4) unfolding makedirs.simps [of f name eo] assms(1) [symmetric]
  by (auto split: option.splits if_splits)

lemma trail_head_subset:
  assumes ht: "(head, tail) = (if basename name = [] then split (dirname name) else split name)"
    and "head \<noteq> []" and "tail \<noteq> []"
  shows "set (trail (start f head) (splitsep head)) \<subseteq> set (trail (start f name) (splitsep name))"
proof -
  have "name \<noteq> []"
    using split_choice_Nil [of head tail] ht assms(2) by auto
  from split_walk [OF ht this assms(3)] obtain pre j where
    s: "splitsep name = pre @ [tail] @ replicate j []"
    and t: "\<And>f. head \<noteq> [] \<Longrightarrow>
       set (trail (start f head) (splitsep head)) = set (trail (start f name) pre)"
    by metis
  show ?thesis
    unfolding t [OF assms(2)] s trail_append by blast
qed

lemma mkdir_leaf_frame:
  assumes "mkdir_leaf f name eo = (r, f')"
  shows "cwd f' = cwd f \<and>
    (\<forall>k. nodes f' k \<noteq> nodes f k \<longrightarrow>
       nodes f k = None \<and> nodes f' k = Some Dir \<and>
       k \<in> set (trail (start f name) (splitsep name)))"
  using mkdir_leaf_cases [OF assms] by (auto split: if_splits)

lemma makedirs_frame:
  "makedirs f name eo = (r, f') \<Longrightarrow>
     cwd f' = cwd f \<and>
     (\<forall>k. nodes f' k \<noteq> nodes f k \<longrightarrow>
        nodes f k = None \<and> nodes f' k = Some Dir \<and>
        k \<in> set (trail (start f name) (splitsep name)))"
proof (induction f name eo arbitrary: r f' rule: makedirs.induct)
  case (1 f name eo)
  obtain head tail
    where ht: "(head, tail) = (if basename name = [] then split (dirname name) else split name)"
    using split_choice_ex by blast
  show ?case
  proof (cases "head \<noteq> [] \<and> tail \<noteq> [] \<and> \<not> exists f head")
    case False
    with ht "1.prems" have "mkdir_leaf f name eo = (r, f')"
      by (simp add: makedirs_no_rec)
    then show ?thesis
      by (rule mkdir_leaf_frame)
  next
    case True
    obtain r1 f1 where rec: "makedirs f head eo = (r1, f1)"
      by (cases "makedirs f head eo")
    have ih: "cwd f1 = cwd f \<and>
       (\<forall>k. nodes f1 k \<noteq> nodes f k \<longrightarrow>
          nodes f k = None \<and> nodes f1 k = Some Dir \<and>
          k \<in> set (trail (start f head) (splitsep head)))"
      using "1.IH" [OF refl ht True rec] .
    have sub: "set (trail (start f head) (splitsep head)) \<subseteq>
        set (trail (start f name) (splitsep name))"
      using ht True by (intro trail_head_subset) auto
    have ih': "cwd f1 = cwd f \<and>
       (\<forall>k. nodes f1 k \<noteq> nodes f k \<longrightarrow>
          nodes f k = None \<and> nodes f1 k = Some Dir \<and>
          k \<in> set (trail (start f name) (splitsep name)))"
      using ih sub by blast
    from makedirs_rec [OF ht True rec "1.prems"] show ?thesis
    proof
      assume "f' = f1 \<and> (r = r1 \<and> r1 \<noteq> None \<and> r1 \<noteq> Some FileExistsError \<or>
                     r = None \<and> tail = ''.'' \<and> (r1 = None \<or> r1 = Some FileExistsError))"
      with ih' show ?thesis
        by simp
    next
      assume "tail \<noteq> ''.'' \<and> (r1 = None \<or> r1 = Some FileExistsError) \<and>
          mkdir_leaf f1 name eo = (r, f')"
      then have leaf: "mkdir_leaf f1 name eo = (r, f')"
        by simp
      have st: "start f1 name = start f name"
        using ih by (intro start_cwd) simp
      from mkdir_leaf_frame [OF leaf] have l: "cwd f' = cwd f1 \<and>
        (\<forall>k. nodes f' k \<noteq> nodes f1 k \<longrightarrow>
           nodes f1 k = None \<and> nodes f' k = Some Dir \<and>
           k \<in> set (trail (start f name) (splitsep name)))"
        unfolding st .
      show ?thesis
      proof (intro conjI allI impI)
        show "cwd f' = cwd f"
          using l ih' by simp
      next
        fix k
        assume diff: "nodes f' k \<noteq> nodes f k"
        show "nodes f k = None"
          using diff l ih' by (metis option.distinct(1))
        show "nodes f' k = Some Dir"
          using diff l ih' by metis
        show "k \<in> set (trail (start f name) (splitsep name))"
          using diff l ih' by metis
      qed
    qed
  qed
qed

lemma tree_like_update:
  assumes tree: "tree_like f" and par: "node_at f par = Some Dir"
  shows "tree_like (f\<lparr>nodes := (nodes f)(par @ [t] \<mapsto> Dir)\<rparr>)"
  unfolding tree_like_def
proof (intro allI impI)
  fix k n
  let ?f' = "f\<lparr>nodes := (nodes f)(par @ [t] \<mapsto> Dir)\<rparr>"
  assume a: "nodes ?f' k \<noteq> None \<and> 0 < n \<and> n < length k"
  have old: "nodes f (take n k) = Some Dir \<Longrightarrow> nodes ?f' (take n k) = Some Dir"
    by simp
  show "nodes ?f' (take n k) = Some Dir"
  proof (cases "k = par @ [t]")
    case False
    with a have "nodes f k \<noteq> None"
      by auto
    with tree a have "nodes f (take n k) = Some Dir"
      unfolding tree_like_def by blast
    then show ?thesis
      by (rule old)
  next
    case True
    with a have n: "0 < n" "n \<le> length par"
      by auto
    then have tk: "take n k = take n par"
      using True by simp
    from n have "par \<noteq> []"
      by auto
    with par have p: "nodes f par = Some Dir"
      by (simp add: node_at_def)
    have "nodes f (take n par) = Some Dir"
    proof (cases "n = length par")
      case True
      with p show ?thesis by simp
    next
      case False
      with n have "n < length par" by simp
      with tree p n(1) show ?thesis
        unfolding tree_like_def by (metis option.distinct(1))
    qed
    then show ?thesis
      unfolding tk by (rule old [unfolded tk])
  qed
qed

lemma mkdir_leaf_tree_like:
  "tree_like f \<Longrightarrow> mkdir_leaf f name eo = (r, f') \<Longrightarrow> tree_like f'"
  using mkdir_leaf_cases [of f name eo r f'] tree_like_update [of f]
  by auto

lemma makedirs_tree_like:
  "tree_like f \<Longrightarrow> makedirs f name eo = (r, f') \<Longrightarrow> tree_like f'"
proof (induction f name eo arbitrary: r f' rule: makedirs.induct)
  case (1 f name eo)
  obtain head tail
    where ht: "(head, tail) = (if basename name = [] then split (dirname name) else split name)"
    using split_choice_ex by blast
  show ?case
  proof (cases "head \<noteq> [] \<and> tail \<noteq> [] \<and> \<not> exists f head")
    case False
    with ht "1.prems" show ?thesis
      by (simp add: makedirs_no_rec mkdir_leaf_tree_like)
  next
    case True
    obtain r1 f1 where rec: "makedirs f head eo = (r1, f1)"
      by (cases "makedirs f head eo")
    have "tree_like f1"
      using "1.IH" [OF refl ht True "1.prems"(1) rec] .
    with makedirs_rec [OF ht True rec "1.prems"(2)] show ?thesis
      by (auto intro: mkdir_leaf_tree_like)
  qed
qed

lemma tree_like_parent:
  assumes "tree_like f" and "node_at f par = Some Dir"
  shows "node_at f (butlast par) = Some Dir"
proof (cases "butlast par = []")
  case True
  then show ?thesis by (simp add: node_at_def)
next
  case False
  then have "0 < length par - 1" "length par - 1 < length par" and ne: "par \<noteq> []"
    by (cases par; auto)+
  moreover from ne assms(2) have "nodes f par \<noteq> None"
    by (simp add: node_at_def)
  ultimately have "nodes f (take (length par - 1) par) = Some Dir"
    using assms(1) unfolding tree_like_def by blast
  with False show ?thesis
    by (simp add: node_at_def butlast_conv_take)
qed

lemma no_file_on_iff:
  "no_file_on f p \<longleftrightarrow> (\<forall>k \<in> set (trail (start f p) (splitsep p)). node_at f k \<noteq> Some File)"
  by (simp add: no_file_on_def list_all_iff)

lemma exists_clear_isdir:
  assumes "exists f p" and "no_file_on f p"
  shows "isdir f p"
proof -
  from assms(1) obtain k where p: "p \<noteq> []" and w: "walk f (start f p) (splitsep p) = Inr k"
    and n: "node_at f k \<noteq> None"
    by (auto simp: exists_def lookup_def split: if_splits sum.splits)
  have "k = foldl step (start f p) (splitsep p)"
    using w by (rule walk_foldl)
  then have "k \<in> set (trail (start f p) (splitsep p))"
    using trail_end by simp
  with assms(2) have "node_at f k \<noteq> Some File"
    unfolding no_file_on_iff by blast
  with n have "node_at f k = Some Dir"
    by (cases "node_at f k") (auto intro: node.exhaust)
  with p w show ?thesis
    by (simp add: isdir_def lookup_def)
qed

lemma leaf_succeeds:
  assumes parse: "splitsep name = pre @ [tail] @ replicate j []" "tail \<noteq> []"
    and tree: "tree_like g"
    and par: "walk g (start g name) (pre @ ['''']) = Inr par"
    and clear: "no_file_on g name"
  shows "\<exists>g'. mkdir_leaf g name True = (None, g') \<and> isdir g' name"
proof -
  let ?s = "start g name"
  from par have w: "walk g ?s pre = Inr par" and d: "node_at g par = Some Dir"
    unfolding walk_dir_end by simp_all
  have m: "mkdir g name =
     (if tail = ''.'' \<or> tail = ''..'' \<or> node_at g (par @ [tail]) \<noteq> None
      then (Some FileExistsError, g)
      else (None, g\<lparr>nodes := (nodes g)(par @ [tail] \<mapsto> Dir)\<rparr>))"
    unfolding mkdir_parsed [OF parse] par by simp
  have kept: "mkdir_leaf g name True = (None, g) \<and> isdir g name"
    if "tail = ''.'' \<or> tail = ''..'' \<or> node_at g (par @ [tail]) \<noteq> None"
      and "node_at g (step par tail) = Some Dir"
  proof -
    from that(2) par have "isdir g name"
      unfolding isdir_parsed [OF parse] by blast
    with that(1) m show ?thesis
      by (simp add: mkdir_leaf_def)
  qed
  consider "tail = ''.''" | "tail = ''..''"
    | "tail \<noteq> ''.''" "tail \<noteq> ''..''" "node_at g (par @ [tail]) \<noteq> None"
    | "tail \<noteq> ''.''" "tail \<noteq> ''..''" "node_at g (par @ [tail]) = None"
    by blast
  then show ?thesis
  proof cases
    case 1
    then have "node_at g (step par tail) = Some Dir"
      using d by (simp add: step_def)
    with 1 kept show ?thesis by blast
  next
    case 2
    then have "node_at g (step par tail) = Some Dir"
      using tree_like_parent [OF tree d] by (simp add: step_def)
    with 2 kept show ?thesis by blast
  next
    case 3
    have st: "step par tail = par @ [tail]"
      using parse(2) 3 by (simp add: step_name)
    have "par = foldl step ?s pre"
      using w by (rule walk_foldl)
    then have "par @ [tail] = foldl step ?s (pre @ [tail])"
      using st by simp
    then have "par @ [tail] \<in> set (trail ?s (pre @ [tail]))"
      using trail_end [of ?s "pre @ [tail]"] by simp
    then have "par @ [tail] \<in> set (trail ?s (splitsep name))"
      unfolding parse(1) using trail_append [of ?s "pre @ [tail]" "replicate j []"] by simp
    with clear have "node_at g (par @ [tail]) \<noteq> Some File"
      unfolding no_file_on_iff by blast
    with 3(3) have "node_at g (par @ [tail]) = Some Dir"
      by (cases "node_at g (par @ [tail])") (auto intro: node.exhaust)
    with 3 kept st show ?thesis by metis
  next
    case 4
    let ?g' = "g\<lparr>nodes := (nodes g)(par @ [tail] \<mapsto> Dir)\<rparr>"
    have st: "step par tail = par @ [tail]"
      using parse(2) 4 by (simp add: step_name)
    from 4 m have leaf: "mkdir_leaf g name True = (None, ?g')"
      by (simp add: mkdir_leaf_def)
    have mono: "node_at ?g' k = Some Dir" if "node_at g k = Some Dir" for k
      using that 4(3) by (auto simp: node_at_def)
    have "start ?g' name = ?s"
      by (simp add: start_def)
    moreover have "walk ?g' ?s (pre @ ['''']) = Inr par"
      using mono par by (rule walk_mono)
    moreover have "node_at ?g' (step par tail) = Some Dir"
      unfolding st by (simp add: node_at_def)
    ultimately have "isdir ?g' name"
      unfolding isdir_parsed [OF parse] by simp
    with leaf show ?thesis by blast
  qed
qed

lemma slashes_leaf:
  assumes "name \<noteq> []" and "is_abs name" and "splitsep name = replicate m []"
  shows "mkdir_leaf f name True = (None, f) \<and> isdir f name"
proof -
  have "mkdir f name = (Some FileExistsError, f)"
    using assms(1) by (simp add: mkdir_def assms(3) strip_empty_empties)
  moreover have "isdir f name"
    using assms(1,2) by (simp add: isdir_def lookup_def start_def assms(3) walk_root_empties node_at_def)
  ultimately show ?thesis
    by (simp add: mkdir_leaf_def)
qed

lemma no_file_on_frame:
  assumes "no_file_on f name" and "cwd g = cwd f"
    and "\<forall>k. nodes g k \<noteq> nodes f k \<longrightarrow> nodes f k = None \<and> nodes g k = Some Dir"
  shows "no_file_on g name"
proof -
  have "node_at g k \<noteq> Some File" if "node_at f k \<noteq> Some File" for k
    using that assms(3) by (cases "nodes g k = nodes f k") (auto simp: node_at_def)
  with assms(1) show ?thesis
    unfolding no_file_on_iff start_cwd [OF assms(2)] by blast
qed

lemma makedirs_complete:
  "eo \<Longrightarrow> tree_like f \<Longrightarrow> node_at f (cwd f) = Some Dir \<Longrightarrow> name \<noteq> [] \<Longrightarrow>
     no_file_on f name \<Longrightarrow> \<exists>f'. makedirs f name eo = (None, f') \<and> isdir f' name"
proof (induction f name eo rule: makedirs.induct)
  case (1 f name eo)
  note eo = \<open>eo\<close> and tree = \<open>tree_like f\<close> and cwd = \<open>node_at f (cwd f) = Some Dir\<close>
    and nonempty = \<open>name \<noteq> []\<close> and clear = \<open>no_file_on f name\<close>
  obtain head tail
    where ht: "(head, tail) = (if basename name = [] then split (dirname name) else split name)"
    using split_choice_ex by blast
  show ?case
  proof (cases "tail = []")
    case True
    with split_parse [OF ht nonempty] obtain m where "is_abs name" "splitsep name = replicate m []"
      by blast
    from slashes_leaf [OF nonempty this] True ht eo show ?thesis
      by (simp add: makedirs_no_rec)
  next
    case tail: False
    from split_walk [OF ht nonempty tail] obtain pre j where
      parse: "splitsep name = pre @ [tail] @ replicate j []"
      and h0: "head = [] \<Longrightarrow> pre = [] \<and> \<not> is_abs name"
      and hw: "\<And>f. head \<noteq> [] \<Longrightarrow>
         walk f (start f name) (pre @ ['''']) = walk f (start f head) (splitsep head @ [''''])"
      by metis
    have clear_head: "no_file_on f head" if "head \<noteq> []"
      using clear trail_head_subset [OF ht that tail, of f] unfolding no_file_on_iff by blast
    show ?thesis
    proof (cases "head \<noteq> [] \<and> tail \<noteq> [] \<and> \<not> exists f head")
      case False
      have "\<exists>par. walk f (start f name) (pre @ ['''']) = Inr par"
      proof (cases "head = []")
        case True
        with h0 have "pre = []" "start f name = cwd f"
          by (simp_all add: start_def)
        with cwd show ?thesis
          by (simp add: walk_check)
      next
        case h: False
        with False tail have "exists f head"
          by simp
        then have "isdir f head"
          using clear_head [OF h] by (rule exists_clear_isdir)
        then show ?thesis
          unfolding hw [OF h] isdir_walk [OF h] .
      qed
      then obtain par where "walk f (start f name) (pre @ ['''']) = Inr par" ..
      from leaf_succeeds [OF parse tail tree this clear] False ht eo show ?thesis
        by (simp add: makedirs_no_rec)
    next
      case True
      then have h: "head \<noteq> []" by simp
      from "1.IH" [OF refl ht True eo tree cwd h clear_head [OF h]]
      obtain f1 where rec: "makedirs f head eo = (None, f1)" and dir1: "isdir f1 head"
        by blast
      from makedirs_frame [OF rec] have frame: "cwd f1 = cwd f"
        "\<forall>k. nodes f1 k \<noteq> nodes f k \<longrightarrow> nodes f k = None \<and> nodes f1 k = Some Dir"
        by blast+
      have tree1: "tree_like f1"
        using tree rec by (rule makedirs_tree_like)
      have clear1: "no_file_on f1 name"
        using clear frame by (rule no_file_on_frame)
      from dir1 obtain par where par: "walk f1 (start f1 name) (pre @ ['''']) = Inr par"
        unfolding hw [OF h] isdir_walk [OF h] ..
      obtain r f' where res: "makedirs f name eo = (r, f')"
        by (cases "makedirs f name eo")
      from makedirs_rec [OF ht True rec res] show ?thesis
      proof
        assume "f' = f1 \<and> (r = None \<and> None \<noteq> None \<and> None \<noteq> Some FileExistsError \<or>
                     r = None \<and> tail = ''.'' \<and> (None = None \<or> None = Some FileExistsError))"
        then have eq: "f' = f1" "r = None" "tail = ''.''"
          by auto
        from par have "node_at f1 par = Some Dir"
          unfolding walk_dir_end by simp
        then have "node_at f1 (step par tail) = Some Dir"
          using eq(3) by (simp add: step_def)
        with par have "isdir f1 name"
          unfolding isdir_parsed [OF parse tail] by blast
        with res eq show ?thesis
          by simp
      next
        assume "tail \<noteq> ''.'' \<and> (None = None \<or> None = Some FileExistsError) \<and>
          mkdir_leaf f1 name eo = (r, f')"
        then have "mkdir_leaf f1 name True = (r, f')"
          using eo by simp
        with leaf_succeeds [OF parse tail tree1 par clear1] res show ?thesis
          by auto
      qed
    qed
  qed
qed

lemma isdir_nonempty: "isdir f name \<Longrightarrow> name \<noteq> []"
  by (auto simp: isdir_def lookup_def)

lemma makedirs_idempotent:
  assumes dir: "isdir f name"
  shows "makedirs f name True = (None, f)"
proof -
  have nonempty: "name \<noteq> []"
    using dir by (rule isdir_nonempty)
  obtain head tail
    where ht: "(head, tail) = (if basename name = [] then split (dirname name) else split name)"
    using split_choice_ex by blast
  show ?thesis
  proof (cases "tail = []")
    case True
    with split_parse [OF ht nonempty] obtain m where "is_abs name" "splitsep name = replicate m []"
      by blast
    from slashes_leaf [OF nonempty this] True ht show ?thesis
      by (simp add: makedirs_no_rec)
  next
    case tail: False
    from split_walk [OF ht nonempty tail] obtain pre j where
      parse: "splitsep name = pre @ [tail] @ replicate j []"
      and hw: "\<And>f. head \<noteq> [] \<Longrightarrow>
         walk f (start f name) (pre @ ['''']) = walk f (start f head) (splitsep head @ [''''])"
      by metis
    from dir obtain par where par: "walk f (start f name) (pre @ ['''']) = Inr par"
      and leaf: "node_at f (step par tail) = Some Dir"
      unfolding isdir_parsed [OF parse tail] by blast
    have "exists f head" if h: "head \<noteq> []"
    proof -
      from par have "isdir f head"
        unfolding hw [OF h] isdir_walk [OF h] ..
      then show ?thesis
        by (simp add: exists_def isdir_def)
    qed
    then have "makedirs f name True = mkdir_leaf f name True"
      using ht by (intro makedirs_no_rec) auto
    also have "\<dots> = (None, f)"
    proof -
      have "tail = ''.'' \<or> tail = ''..'' \<or> node_at f (par @ [tail]) \<noteq> None"
        using leaf step_name [OF tail, of par] by auto
      then have "mkdir f name = (Some FileExistsError, f)"
        unfolding mkdir_parsed [OF parse tail] par by simp
      with dir show ?thesis
        by (simp add: mkdir_leaf_def)
    qed
    finally show ?thesis .
  qed
qed

text \<open>
  Claim C7. When \<^verbatim>\<open>download_file\<close> is called without a local path, the client downloads
  to the basename of the key, in the file system as it is, and that basename is what
  \<^verbatim>\<open>download_file\<close> returns. When the local path has a directory part,
  \<^verbatim>\<open>os.makedirs(directory, exist_ok=True)\<close> runs first, here on a file system shaped like a
  tree whose current directory exists. If no regular file is in the way of the directory
  part, \<^verbatim>\<open>os.makedirs\<close> raises nothing and the directory part is a directory afterwards,
  whatever was missing before. If the directory part is a directory already,
  \<^verbatim>\<open>os.makedirs\<close> raises nothing and changes nothing. In every case it leaves the file
  system as it was, except for directories on the path that were missing and now exist;
  and \<^verbatim>\<open>download_file\<close> either raises the error of \<^verbatim>\<open>os.makedirs\<close> without calling the
  client, or calls the download of the client in the file system that \<^verbatim>\<open>os.makedirs\<close>
  left.
\<close>

theorem download_creates_directories:
  assumes "download_file sdk self bucket_name fpath_in_bucket local_arg out = (res, out1)"
    and "tree_like (fs out)"
    and "node_at (fs out) (cwd (fs out)) = Some Dir"
  shows "(local_arg = None \<longrightarrow>
      (\<forall>p. res = Inr p \<longrightarrow> p = basename fpath_in_bucket) \<and>
      (res, out1) =
        (case call_client self
                (\<lambda>cl. client_download_file sdk cl bucket_name fpath_in_bucket
                   (basename fpath_in_bucket)) out of
           (Inr u, out2) \<Rightarrow> (Inr (basename fpath_in_bucket), out2)
         | (Inl e, out2) \<Rightarrow>
             (Inl (case e of ClientError m \<Rightarrow> PyException (''Download failed: '' @ m)
                   | _ \<Rightarrow> e), out2))) \<and>
   (\<forall>p. local_arg = Some p \<and> dirname p \<noteq> [] \<longrightarrow>
      (\<exists>r f1. makedirs (fs out) (dirname p) True = (r, f1) \<and>
         (no_file_on (fs out) (dirname p) \<longrightarrow> r = None \<and> isdir f1 (dirname p)) \<and>
         (isdir (fs out) (dirname p) \<longrightarrow> r = None \<and> f1 = fs out) \<and>
         cwd f1 = cwd (fs out) \<and>
         (\<forall>k. nodes f1 k \<noteq> nodes (fs out) k \<longrightarrow>
            nodes (fs out) k = None \<and> nodes f1 k = Some Dir \<and>
            k \<in> set (trail (start (fs out) (dirname p)) (splitsep (dirname p)))) \<and>
         (res, out1) =
           (case r of
              Some e \<Rightarrow> (Inl (OSError e), out\<lparr>fs := f1\<rparr>)
            | None \<Rightarrow>
                (case call_client self
                        (\<lambda>cl. client_download_file sdk cl bucket_name fpath_in_bucket p)
                        (out\<lparr>fs := f1\<rparr>) of
                   (Inr u, out2) \<Rightarrow> (Inr p, out2)
                 | (Inl e, out2) \<Rightarrow>
                     (Inl (case e of ClientError m \<Rightarrow> PyException (''Download failed: '' @ m)
                           | _ \<Rightarrow> e), out2)))))"
proof (intro conjI allI impI)
  fix p
  assume "local_arg = None" and "res = Inr p"
  with assms(1) show "p = basename fpath_in_bucket"
    by (auto simp: download_file_def Let_def dirname_basename split: prod.splits sum.splits)
next
  assume "local_arg = None"
  with assms(1) show "(res, out1) =
        (case call_client self
                (\<lambda>cl. client_download_file sdk cl bucket_name fpath_in_bucket
                   (basename fpath_in_bucket)) out of
           (Inr u, out2) \<Rightarrow> (Inr (basename fpath_in_bucket), out2)
         | (Inl e, out2) \<Rightarrow>
             (Inl (case e of ClientError m \<Rightarrow> PyException (''Download failed: '' @ m)
                   | _ \<Rightarrow> e), out2))"
    by (auto simp: download_file_def Let_def dirname_basename except_ClientError_def
        split: prod.splits sum.splits)
next
  fix p
  assume p: "local_arg = Some p \<and> dirname p \<noteq> []"
  let ?d = "dirname p"
  obtain r f1 where mk: "makedirs (fs out) ?d True = (r, f1)"
    by (cases "makedirs (fs out) ?d True")
  have complete: "r = None \<and> isdir f1 ?d" if "no_file_on (fs out) ?d"
    using makedirs_complete [OF TrueI assms(2,3) _ that, of] p mk by auto
  have idem: "r = None \<and> f1 = fs out" if "isdir (fs out) ?d"
    using makedirs_idempotent [OF that] mk by simp
  have frame: "cwd f1 = cwd (fs out) \<and>
     (\<forall>k. nodes f1 k \<noteq> nodes (fs out) k \<longrightarrow>
        nodes (fs out) k = None \<and> nodes f1 k = Some Dir \<and>
        k \<in> set (trail (start (fs out) ?d) (splitsep ?d)))"
    using mk by (rule makedirs_frame)
  have result: "(res, out1) =
           (case r of
              Some e \<Rightarrow> (Inl (OSError e), out\<lparr>fs := f1\<rparr>)
            | None \<Rightarrow>
                (case call_client self
                        (\<lambda>cl. client_download_file sdk cl bucket_name fpath_in_bucket p)
                        (out\<lparr>fs := f1\<rparr>) of
                   (Inr u, out2) \<Rightarrow> (Inr p, out2)
                 | (Inl e, out2) \<Rightarrow>
                     (Inl (case e of ClientError m \<Rightarrow> PyException (''Download failed: '' @ m)
                           | _ \<Rightarrow> e), out2)))"
    using mk p assms(1)
    by (auto simp: download_file_def Let_def except_ClientError_def
        split: prod.splits sum.splits option.splits)
  show "\<exists>r f1. makedirs (fs out) ?d True = (r, f1) \<and>
         (no_file_on (fs out) ?d \<longrightarrow> r = None \<and> isdir f1 ?d) \<and>
         (isdir (fs out) ?d \<longrightarrow> r = None \<and> f1 = fs out) \<and>
         cwd f1 = cwd (fs out) \<and>
         (\<forall>k. nodes f1 k \<noteq> nodes (fs out) k \<longrightarrow>
            nodes (fs out) k = None \<and> nodes f1 k = Some Dir \<and>
            k \<in> set (trail (start (fs out) ?d) (splitsep ?d))) \<and>
         (res, out1) =
           (case r of
              Some e \<Rightarrow> (Inl (OSError e), out\<lparr>fs := f1\<rparr>)
            | None \<Rightarrow>
                (case call_client self
                        (\<lambda>cl. client_download_file sdk cl bucket_name fpath_in_bucket p)
                        (out\<lparr>fs := f1\<rparr>) of
                   (Inr u, out2) \<Rightarrow> (Inr p, out2)
                 | (Inl e, out2) \<Rightarrow>
                     (Inl (case e of ClientError m \<Rightarrow> PyException (''Download failed: '' @ m)
                           | _ \<Rightarrow> e), out2)))"
    using mk complete idem frame result by (intro exI [of _ r] exI [of _ f1]) blast
qed

text \<open>
  Examples in the directory \<^verbatim>\<open>/work\<close>. Two missing directories are made in one call, and
  \<^verbatim>\<open>..\<close> is resolved in the file system: \<^verbatim>\<open>os.makedirs('tmp/../out')\<close> makes \<^verbatim>\<open>tmp\<close> and
  \<^verbatim>\<open>out\<close>. With the regular file \<^verbatim>\<open>c\<close> in the way, \<^verbatim>\<open>os.makedirs('c/x')\<close> raises, and
  \<^verbatim>\<open>os.makedirs('f/../c/.', exist_ok=True)\<close> returns although \<^verbatim>\<open>c\<close> is not a directory: the
  standard library ignores the \<^verbatim>\<open>FileExistsError\<close> of the head and stops at the last
  component \<^verbatim>\<open>.\<close>.
\<close>

lemma dirname_example: "dirname ''out/nested/file.txt'' = ''out/nested''"
  by (simp add: dirname_def head_part_def rstrip_sep_def Let_def)

lemmas path_eval =
  split_def dirname_def basename_def head_part_def rstrip_sep_def Let_def
  exists_def isdir_def lookup_def start_def is_abs_def node_at_def step_def
  mkdir_leaf_def mkdir_def strip_empty_def

lemma fs_mem_outer: "fs mem_outer = \<lparr>nodes = [([''work'']) \<mapsto> Dir], cwd = [''work'']\<rparr>"
  by (simp add: mem_outer_def)

lemma makedirs_example:
  "makedirs \<lparr>nodes = [([''work'']) \<mapsto> Dir], cwd = [''work'']\<rparr> ''out/nested'' True =
     (None, \<lparr>nodes = [([''work'']) \<mapsto> Dir, ([''work'', ''out'']) \<mapsto> Dir,
                       ([''work'', ''out'', ''nested'']) \<mapsto> Dir], cwd = [''work'']\<rparr>)"
  by (simp add: makedirs.simps [of _ "''out/nested''"] makedirs.simps [of _ "''out''"] path_eval)

lemma makedirs_parent_example:
  "makedirs \<lparr>nodes = [([''work'']) \<mapsto> Dir], cwd = [''work'']\<rparr> ''tmp/../out'' True =
     (None, \<lparr>nodes = [([''work'']) \<mapsto> Dir, ([''work'', ''tmp'']) \<mapsto> Dir,
                       ([''work'', ''out'']) \<mapsto> Dir], cwd = [''work'']\<rparr>)"
  by (simp add: makedirs.simps [of _ "''tmp/../out''"] makedirs.simps [of _ "''tmp/..''"]
      makedirs.simps [of _ "''tmp''"] path_eval)

lemma makedirs_file_in_the_way:
  "makedirs \<lparr>nodes = [([''work'']) \<mapsto> Dir, ([''work'', ''c'']) \<mapsto> File], cwd = [''work'']\<rparr>
      ''c/x'' True =
     (Some NotADirectoryError,
      \<lparr>nodes = [([''work'']) \<mapsto> Dir, ([''work'', ''c'']) \<mapsto> File], cwd = [''work'']\<rparr>)"
  "makedirs \<lparr>nodes = [([''work'']) \<mapsto> Dir, ([''work'', ''c'']) \<mapsto> File], cwd = [''work'']\<rparr>
      ''f/../c/.'' True =
     (None, \<lparr>nodes = [([''work'']) \<mapsto> Dir, ([''work'', ''c'']) \<mapsto> File,
                       ([''work'', ''f'']) \<mapsto> Dir], cwd = [''work'']\<rparr>)"
  "\<not> isdir \<lparr>nodes = [([''work'']) \<mapsto> Dir, ([''work'', ''c'']) \<mapsto> File,
                       ([''work'', ''f'']) \<mapsto> Dir], cwd = [''work'']\<rparr> ''f/../c/.''"
  by (simp_all add: makedirs.simps [of _ "''c/x''"] makedirs.simps [of _ "''f/../c/.''"]
      makedirs.simps [of _ "''f/../c''"] makedirs.simps [of _ "''f/..''"]
      makedirs.simps [of _ "''f''"] path_eval)

lemma mem_download_example:
  "client_download_file mem_sdk cl ''mybucket'' ''a/b.txt'' ''out/nested/file.txt''
     (mem_outer\<lparr>fs := \<lparr>nodes = [([''work'']) \<mapsto> Dir, ([''work'', ''out'']) \<mapsto> Dir,
                       ([''work'', ''out'', ''nested'']) \<mapsto> Dir], cwd = [''work'']\<rparr>\<rparr>) =
     (Inr (), nested_outer)"
  by (simp add: mem_sdk_def mem_outer_def objects_in_def nested_outer_def create_file_def
      start_def is_abs_def node_at_def step_def)

lemma download_example:
  "download_file mem_sdk some_storage ''mybucket'' ''a/b.txt'' (Some ''out/nested/file.txt'')
     mem_outer = (Inr ''out/nested/file.txt'', nested_outer)"
  by (simp add: download_file_def dirname_example fs_mem_outer makedirs_example call_client_Some
      client_some_storage mem_download_example)

lemma tree_like_mem: "tree_like (fs mem_outer)"
  unfolding tree_like_def mem_outer_def
  by (auto split: if_splits)

lemma tree_like_nested: "tree_like (fs nested_outer)"
  unfolding tree_like_def nested_outer_def
  by (auto split: if_splits simp: less_Suc_eq)

lemma cwd_mem: "node_at (fs mem_outer) (cwd (fs mem_outer)) = Some Dir"
  by (simp add: mem_outer_def node_at_def)

lemma cwd_nested: "node_at (fs nested_outer) (cwd (fs nested_outer)) = Some Dir"
  by (simp add: nested_outer_def node_at_def)

lemma nothing_in_the_way: "no_file_on (fs mem_outer) ''out/nested''"
  by (simp add: no_file_on_def mem_outer_def start_def is_abs_def node_at_def step_def)

lemma out_missing: "\<not> exists (fs mem_outer) ''out''"
  by (simp add: mem_outer_def path_eval)

lemma nested_isdir: "isdir (fs nested_outer) ''out/nested''"
  by (simp add: nested_outer_def path_eval)

theorem download_creates_directories_witness:
  "tree_like (fs mem_outer) \<and> node_at (fs mem_outer) (cwd (fs mem_outer)) = Some Dir \<and>
   dirname ''out/nested/file.txt'' = ''out/nested'' \<and>
   \<not> exists (fs mem_outer) ''out'' \<and> no_file_on (fs mem_outer) ''out/nested'' \<and>
   fst (makedirs (fs mem_outer) ''out/nested'' True) = None \<and>
   isdir (snd (makedirs (fs mem_outer) ''out/nested'' True)) ''out/nested'' \<and>
   download_file mem_sdk some_storage ''mybucket'' ''a/b.txt'' (Some ''out/nested/file.txt'')
     mem_outer = (Inr ''out/nested/file.txt'', nested_outer) \<and>
   isdir (fs nested_outer) ''out/nested'' \<and>
   makedirs (fs nested_outer) ''out/nested'' True = (None, fs nested_outer)"
proof -
  obtain res out1 where again:
      "download_file mem_sdk some_storage ''mybucket'' ''a/b.txt'' (Some ''out/nested/file.txt'')
        nested_outer = (res, out1)"
    by (cases "download_file mem_sdk some_storage ''mybucket'' ''a/b.txt''
        (Some ''out/nested/file.txt'') nested_outer")
  from download_creates_directories [OF download_example tree_like_mem cwd_mem]
  have first: "fst (makedirs (fs mem_outer) ''out/nested'' True) = None \<and>
      isdir (snd (makedirs (fs mem_outer) ''out/nested'' True)) ''out/nested''"
    using nothing_in_the_way by (auto simp: dirname_example)
  from download_creates_directories [OF again tree_like_nested cwd_nested]
  have "makedirs (fs nested_outer) ''out/nested'' True = (None, fs nested_outer)"
    using nested_isdir by (auto simp: dirname_example)
  with first tree_like_mem cwd_mem out_missing nothing_in_the_way download_example nested_isdir
  show ?thesis
    by (simp add: dirname_example)
qed

end
